theory Spec2Isabelle
  imports Main "HOL-Library.Word"
begin

section \<open>Values shared by the transport\<close>

subsection \<open>JSON records\<close>

text \<open>
  The transport moves \<^verbatim>\<open>map[string]any\<close> values. A Go map is modelled as an association
  list read through \<open>map_of\<close>; a nil map is \<open>None\<close>. Numbers are restricted to integers.
  The map literals of the source are listed by key, the order in which \<^verbatim>\<open>encoding/json\<close>
  writes a map.
\<close>

datatype json =
    JNull
  | JBool bool
  | JNumber int
  | JString string
  | JArray "json list"
  | JObject "(string \<times> json) list"

type_synonym jobject = "(string \<times> json) list"

text \<open>\<^verbatim>\<open>m[k]\<close> with the comma-ok form; indexing a nil map finds nothing.\<close>

fun index :: "jobject option \<Rightarrow> string \<Rightarrow> json option" where
  "index None k = None"
| "index (Some m) k = map_of m k"

text \<open>The type assertions \<^verbatim>\<open>v.(string)\<close> and \<^verbatim>\<open>v.(map[string]any)\<close> on a looked-up value.\<close>

fun as_string :: "json option \<Rightarrow> string option" where
  "as_string (Some (JString s)) = Some s"
| "as_string _ = None"

fun as_object :: "json option \<Rightarrow> jobject option" where
  "as_object (Some (JObject m)) = Some m"
| "as_object _ = None"

subsection \<open>Decimal formatting (the \<^verbatim>\<open>%d\<close> verb)\<close>

definition digit_char :: "nat \<Rightarrow> char" where
  "digit_char d = ''0123456789'' ! d"

fun nat_dec :: "nat \<Rightarrow> string" where
  "nat_dec n = (if n < 10 then [digit_char n] else nat_dec (n div 10) @ [digit_char (n mod 10)])"

declare nat_dec.simps [simp del]

definition itoa :: "int \<Rightarrow> string" where
  "itoa i = (if i < 0 then CHR ''-'' # nat_dec (nat (- i)) else nat_dec (nat i))"

subsection \<open>Errors (internal/transport/errors.go)\<close>

datatype error =
    EOF
  | ContextCanceled
  | DeadlineExceeded
  | ErrorString string
  | Wrapped string error
  | CLIConnectionError string
  | CLINotFoundError string string
  | ProcessError string int string
  | CLIJSONDecodeError string string error

definition NewCLIConnectionError :: "string \<Rightarrow> error" where
  "NewCLIConnectionError message = CLIConnectionError message"

definition NewProcessError :: "string \<Rightarrow> int \<Rightarrow> string \<Rightarrow> error" where
  "NewProcessError message exitCode stderr =
     (let fullMessage = message;
          fullMessage = (if exitCode \<noteq> 0
                         then fullMessage @ '' (exit code: '' @ itoa exitCode @ '')''
                         else fullMessage);
          fullMessage = (if stderr \<noteq> []
                         then fullMessage @ [CHR 0x0A] @ ''Error output: '' @ stderr
                         else fullMessage)
      in ProcessError fullMessage exitCode stderr)"

definition NewCLIJSONDecodeError :: "string \<Rightarrow> error \<Rightarrow> error" where
  "NewCLIJSONDecodeError line originalError =
     (let message = (if length line > 100
                     then ''Failed to decode JSON: '' @ take 100 line @ ''...''
                     else ''Failed to decode JSON: '' @ line)
      in CLIJSONDecodeError message line originalError)"

subsection \<open>String helpers of the standard library\<close>

text \<open>
  \<^verbatim>\<open>strings.TrimSpace\<close> removes, at both ends, every rune for which \<^verbatim>\<open>unicode.IsSpace\<close>
  holds. Strings are byte sequences, so the white-space runes are matched in their UTF-8
  encodings of one, two or three bytes.
\<close>

definition is_space1 :: "char \<Rightarrow> bool" where
  "is_space1 a = (a \<in> set [CHR 0x09, CHR 0x0A, CHR 0x0B, CHR 0x0C, CHR 0x0D, CHR 0x20])"

definition is_space2 :: "char \<Rightarrow> char \<Rightarrow> bool" where
  "is_space2 a b = (a = CHR 0xC2 \<and> (b = CHR 0x85 \<or> b = CHR 0xA0))"

definition is_space3 :: "char \<Rightarrow> char \<Rightarrow> char \<Rightarrow> bool" where
  "is_space3 a b c =
     ((a = CHR 0xE1 \<and> b = CHR 0x9A \<and> c = CHR 0x80) \<or>
      (a = CHR 0xE2 \<and> b = CHR 0x80 \<and>
         c \<in> set [CHR 0x80, CHR 0x81, CHR 0x82, CHR 0x83, CHR 0x84, CHR 0x85, CHR 0x86,
                   CHR 0x87, CHR 0x88, CHR 0x89, CHR 0x8A, CHR 0xA8, CHR 0xA9, CHR 0xAF]) \<or>
      (a = CHR 0xE2 \<and> b = CHR 0x81 \<and> c = CHR 0x9F) \<or>
      (a = CHR 0xE3 \<and> b = CHR 0x80 \<and> c = CHR 0x80))"

fun TrimLeft :: "string \<Rightarrow> string" where
  "TrimLeft (a # b # c # s) =
     (if is_space1 a then TrimLeft (b # c # s)
      else if is_space2 a b then TrimLeft (c # s)
      else if is_space3 a b c then TrimLeft s
      else a # b # c # s)"
| "TrimLeft [a, b] =
     (if is_space1 a then TrimLeft [b] else if is_space2 a b then [] else [a, b])"
| "TrimLeft [a] = (if is_space1 a then [] else [a])"
| "TrimLeft [] = []"

text \<open>The same from the right end, on the reversed string.\<close>

fun TrimLeftRev :: "string \<Rightarrow> string" where
  "TrimLeftRev (c # b # a # s) =
     (if is_space1 c then TrimLeftRev (b # a # s)
      else if is_space2 b c then TrimLeftRev (a # s)
      else if is_space3 a b c then TrimLeftRev s
      else c # b # a # s)"
| "TrimLeftRev [c, b] =
     (if is_space1 c then TrimLeftRev [b] else if is_space2 b c then [] else [c, b])"
| "TrimLeftRev [c] = (if is_space1 c then [] else [c])"
| "TrimLeftRev [] = []"

definition TrimSpace :: "string \<Rightarrow> string" where
  "TrimSpace s = rev (TrimLeftRev (rev (TrimLeft s)))"

text \<open>\<^verbatim>\<open>strings.Split(line, "\n")\<close>: always at least one piece.\<close>

fun Split_newline :: "string \<Rightarrow> string list" where
  "Split_newline [] = [[]]"
| "Split_newline (c # cs) =
     (if c = CHR 0x0A then [] # Split_newline cs
      else (case Split_newline cs of
              [] \<Rightarrow> [[c]]
            | piece # pieces \<Rightarrow> (c # piece) # pieces))"

text \<open>\<^verbatim>\<open>strings.Join(lines, "\n")\<close>.\<close>

fun Join_newline :: "string list \<Rightarrow> string" where
  "Join_newline [] = []"
| "Join_newline [l] = l"
| "Join_newline (l # l' # ls) = l @ [CHR 0x0A] @ Join_newline (l' # ls)"

section \<open>The transport (internal/transport)\<close>

subsection \<open>State\<close>

definition maxBufferSize :: nat where
  "maxBufferSize = 1024 * 1024"

definition maxStderrSize :: nat where
  "maxStderrSize = 10 * 1024 * 1024"

record MessageData =
  Data :: "jobject option"
  Err :: "error option"

text \<open>
  \<^verbatim>\<open>Options\<close> and \<^verbatim>\<open>NewOptions\<close>, which returns the zero value of every field.
\<close>

record Options =
  Model :: string
  SystemPrompt :: string
  AppendSystemPrompt :: string
  Cwd :: string
  AllowedTools :: "string list"
  DisallowedTools :: "string list"
  MaxTurns :: "int option"
  PermissionPromptToolName :: string
  PermissionMode :: string
  ContinueConversation :: bool
  Resume :: string
  MCPServers :: "jobject option"

definition NewOptions :: Options where
  "NewOptions =
     \<lparr>Model = [], SystemPrompt = [], AppendSystemPrompt = [], Cwd = [], AllowedTools = [],
      DisallowedTools = [], MaxTurns = None, PermissionPromptToolName = [],
      PermissionMode = [], ContinueConversation = False, Resume = [], MCPServers = None\<rparr>"

text \<open>
  \<^verbatim>\<open>stringPromptAdapter\<close> with its fields \<^verbatim>\<open>prompt\<close> (here \<open>prompt_string\<close>: the transport
  has a field \<^verbatim>\<open>prompt\<close> too) and \<^verbatim>\<open>sent\<close>. A \<^verbatim>\<open>MessageStream\<close>
  interface value is nil, a pointer to such an adapter, or some other implementation
  (here one that yields a fixed list of records).
\<close>

record stringPromptAdapter =
  prompt_string :: string
  sent :: bool

datatype MessageStream =
    NilStream
  | StringPrompt stringPromptAdapter
  | RecordStream "jobject list"

text \<open>
  A channel keeps what was sent on it, in order, and whether it was closed. The child
  process as \<^verbatim>\<open>exec.Cmd\<close> shows it: whether \<^verbatim>\<open>Process\<close> is set, and the exit code once
  \<^verbatim>\<open>ProcessState\<close> is.
\<close>

datatype 'a chan = Chan (queue: "'a list") (is_closed: bool)

datatype pipe = OpenPipe | ClosedPipe

record Cmd =
  Process :: bool
  ProcessState :: "int option"

datatype effect = CancelCtx | CloseStdinChan | CloseStdin | WaitProcess | KillProcess
  | WaitTasks | CloseOutChan

text \<open>
  \<^verbatim>\<open>SubprocessCLITransport\<close>. The mutex and the wait group are left out; \<open>outChan\<close> holds what
  was sent while it is non-nil (it is closed and set to nil in one critical section);
  \<open>ctx_done\<close> says that the connection's context is cancelled and \<open>cancel\<close> that the cancel
  function is set. \<open>effects\<close> records, in order, the externally visible teardown actions.
\<close>

record transport =
  prompt :: MessageStream
  options :: Options
  cliPath :: string
  closeStdinAfterPrompt :: bool
  cmd :: "Cmd option"
  stdin :: "pipe option"
  stdinChan :: "string chan option"
  outChan :: "MessageData list option"
  pendingControlResponses :: "string \<rightharpoonup> jobject"
  requestCounter :: "64 word"
  connected :: bool
  isStreaming :: bool
  sessionID :: string
  ctx_done :: bool
  cancel :: bool
  effects :: "effect list"

text \<open>
  \<^verbatim>\<open>safeSend\<close>: nothing is sent on a nil channel or when the context is done (where both
  the send and the cancellation are ready Go may pick either; the model takes the
  cancellation). A send on a full channel waits for the consumer, so it appends.
\<close>

definition safeSend :: "transport \<Rightarrow> MessageData \<Rightarrow> bool \<times> transport" where
  "safeSend t msg =
     (case outChan t of
        None \<Rightarrow> (False, t)
      | Some sent_msgs \<Rightarrow>
          if ctx_done t then (False, t)
          else (True, t\<lparr>outChan := Some (sent_msgs @ [msg])\<rparr>))"

subsection \<open>readOutput\<close>

text \<open>
  \<^verbatim>\<open>json.Unmarshal\<close> into a \<^verbatim>\<open>map[string]any\<close> is a parameter of the reader: it answers an
  error or the decoded map (nil for the JSON text \<^verbatim>\<open>null\<close>).
\<close>

type_synonym unmarshal = "string \<Rightarrow> error + jobject option"

definition overflow_error :: error where
  "overflow_error =
     NewCLIJSONDecodeError
       (''JSON message exceeded maximum buffer size of '' @ itoa (int maxBufferSize) @ '' bytes'')
       (ErrorString ''buffer size exceeded'')"

text \<open>
  The body of the inner loop, for one piece of a line, on the pair of the local
  \<^verbatim>\<open>jsonBuffer\<close> and the transport.
\<close>

definition readOutput_fragment :: "unmarshal \<Rightarrow> string \<times> transport \<Rightarrow> string \<Rightarrow> string \<times> transport" where
  "readOutput_fragment Unmarshal st piece =
     (let jsonBuffer = fst st; t = snd st; jsonLine = TrimSpace piece in
      if jsonLine = [] then (jsonBuffer, t)
      else
        let jsonBuffer = jsonBuffer @ jsonLine in
        if length jsonBuffer > maxBufferSize
        then ([], snd (safeSend t \<lparr>Data = None, Err = Some overflow_error\<rparr>))
        else
          (case Unmarshal jsonBuffer of
             Inl err \<Rightarrow> (jsonBuffer, t)
           | Inr data \<Rightarrow>
               if index data ''type'' = Some (JString ''control_response'')
               then
                 (case as_object (index data ''response'') of
                    Some response \<Rightarrow>
                      (case as_string (map_of response ''request_id'') of
                         Some requestID \<Rightarrow>
                           ([], t\<lparr>pendingControlResponses :=
                                    (pendingControlResponses t)(requestID \<mapsto> response)\<rparr>)
                       | None \<Rightarrow> ([], t))
                  | None \<Rightarrow> ([], t))
               else ([], snd (safeSend t \<lparr>Data = data, Err = None\<rparr>))))"

definition readOutput_line :: "unmarshal \<Rightarrow> string \<times> transport \<Rightarrow> string \<Rightarrow> string \<times> transport" where
  "readOutput_line Unmarshal st line =
     (if line = [] then st else foldl (readOutput_fragment Unmarshal) st (Split_newline line))"

text \<open>\<open>readOutput_loop\<close> is the loop over the lines that the scanner yields; it also returns the final \<^verbatim>\<open>jsonBuffer\<close>.\<close>

definition readOutput_loop :: "unmarshal \<Rightarrow> transport \<Rightarrow> string list \<Rightarrow> string \<times> transport" where
  "readOutput_loop Unmarshal t lines = foldl (readOutput_line Unmarshal) ([], t) lines"

text \<open>
  The child's output is given by its lines (what stands between the newlines, without a
  carriage return at the end) and by the error, if any, that ends the reading (\<open>None\<close> at a
  clean end of the stream). \<^verbatim>\<open>scanner.Buffer(make([]byte, maxBufferSize), maxBufferSize)\<close> caps
  the scanner: \<^verbatim>\<open>Scan\<close> yields a line only if it is shorter than \<^verbatim>\<open>maxBufferSize\<close>, and at the
  first line that is not it stops with \<^verbatim>\<open>bufio.ErrTooLong\<close>. \<^verbatim>\<open>scanner.Err()\<close> is nil after
  \<^verbatim>\<open>io.EOF\<close>.
\<close>

definition ErrTooLong :: error where
  "ErrTooLong = ErrorString ''bufio.Scanner: token too long''"

definition scanner_Scan :: "string list \<Rightarrow> string list" where
  "scanner_Scan lines = takeWhile (\<lambda>line. length line < maxBufferSize) lines"

definition scanner_Err :: "string list \<Rightarrow> error option \<Rightarrow> error option" where
  "scanner_Err lines readErr =
     (if list_all (\<lambda>line. length line < maxBufferSize) lines
      then (if readErr = Some EOF then None else readErr)
      else Some ErrTooLong)"

definition readOutput :: "unmarshal \<Rightarrow> transport \<Rightarrow> string list \<Rightarrow> error option \<Rightarrow> transport" where
  "readOutput Unmarshal t lines readErr =
     (let t = snd (readOutput_loop Unmarshal t (scanner_Scan lines)) in
      case scanner_Err lines readErr of
        None \<Rightarrow> t
      | Some err \<Rightarrow>
          if err \<noteq> EOF
          then snd (safeSend t \<lparr>Data = None, Err = Some (Wrapped ''error reading output: '' err)\<rparr>)
          else t)"

subsection \<open>readStderr and processStderr\<close>

text \<open>
  \<^verbatim>\<open>processStderr\<close>. The result is \<open>None\<close> where Go panics on the nil \<^verbatim>\<open>t.cmd\<close>. The exit
  code stays 0 while \<^verbatim>\<open>ProcessState\<close> is nil.
\<close>

definition processStderr :: "string list \<Rightarrow> transport \<Rightarrow> transport option" where
  "processStderr lines t =
     (if length lines = 0 then Some t
      else
        let stderrOutput = Join_newline lines in
        case cmd t of
          None \<Rightarrow> None
        | Some c \<Rightarrow>
            let exitCode = (case ProcessState c of None \<Rightarrow> 0 | Some code \<Rightarrow> code) in
            if exitCode \<noteq> 0
            then Some (snd (safeSend t
                   \<lparr>Data = None,
                    Err = Some (NewProcessError (''Command failed with exit code '' @ itoa exitCode)
                                  exitCode stderrOutput)\<rparr>))
            else Some t)"

text \<open>
  The pump's \<^verbatim>\<open>select\<close> loop runs over the events in the order it takes them: a line from
  the reading goroutine, the end of reading, the 30 s timer, the cancelled context. When
  the events run out the pump is still waiting and the state so far is returned.
\<close>

datatype stderr_event = Line string | ReadDone | TimerFired | CtxDone

text \<open>
  The goroutine that reads stderr uses a scanner with the default buffer, so every line it
  sends is shorter than \<^verbatim>\<open>bufio.MaxScanTokenSize\<close>.
\<close>

definition MaxScanTokenSize :: nat where
  "MaxScanTokenSize = 64 * 1024"

text \<open>The inner draining loop listens to lines and to the end of reading only.\<close>

fun readStderr_drain :: "string list \<Rightarrow> stderr_event list \<Rightarrow> transport \<Rightarrow> transport option" where
  "readStderr_drain stderrLines [] t = Some t"
| "readStderr_drain stderrLines (Line line # evs) t = readStderr_drain stderrLines evs t"
| "readStderr_drain stderrLines (ReadDone # evs) t =
     (if length stderrLines > 0 then processStderr stderrLines t else Some t)"
| "readStderr_drain stderrLines (TimerFired # evs) t = readStderr_drain stderrLines evs t"
| "readStderr_drain stderrLines (CtxDone # evs) t = readStderr_drain stderrLines evs t"

fun readStderr_loop :: "string list \<Rightarrow> nat \<Rightarrow> stderr_event list \<Rightarrow> transport \<Rightarrow> transport option" where
  "readStderr_loop stderrLines stderrSize [] t = Some t"
| "readStderr_loop stderrLines stderrSize (Line line # evs) t =
     (let lineSize = length line in
      if stderrSize + lineSize > maxStderrSize
      then readStderr_drain
             (stderrLines @ [''[stderr truncated after '' @ itoa (int stderrSize) @ '' bytes]''])
             evs t
      else readStderr_loop (stderrLines @ [line]) (stderrSize + lineSize) evs t)"
| "readStderr_loop stderrLines stderrSize (ReadDone # evs) t =
     (if length stderrLines > 0 then processStderr stderrLines t else Some t)"
| "readStderr_loop stderrLines stderrSize (TimerFired # evs) t =
     processStderr (stderrLines @ [''[stderr collection timed out after 30s]'']) t"
| "readStderr_loop stderrLines stderrSize (CtxDone # evs) t = Some t"

definition readStderr :: "stderr_event list \<Rightarrow> transport \<Rightarrow> transport option" where
  "readStderr evs t = readStderr_loop [] 0 evs t"

subsection \<open>Calls that may not return\<close>

text \<open>
  A call returns, panics (a send on or a close of a closed channel), or waits for ever.
  The caller's context is \<open>Background\<close>, or is done, with the error \<^verbatim>\<open>ctx.Err()\<close>, once
  the given number of channel sends of the call have gone through.
\<close>

datatype 'a outcome = Returned 'a | Panicked | Blocked

datatype call_ctx = Background | DoneAfter nat error

fun after_send :: "call_ctx \<Rightarrow> call_ctx" where
  "after_send Background = Background"
| "after_send (DoneAfter n e) = DoneAfter (n - 1) e"

text \<open>
  \<^verbatim>\<open>select { case t.stdinChan <- data: case <-ctx.Done(): }\<close>: the error of the context if
  it is done, else the send (which waits for ever on a nil channel and panics on a closed
  one).
\<close>

fun send_stdinChan :: "call_ctx \<Rightarrow> string \<Rightarrow> transport \<Rightarrow> (error option) outcome \<times> transport" where
  "send_stdinChan (DoneAfter 0 e) bytes t = (Returned (Some e), t)"
| "send_stdinChan c bytes t =
     (case stdinChan t of
        None \<Rightarrow> (Blocked, t)
      | Some ch \<Rightarrow>
          if is_closed ch then (Panicked, t)
          else (Returned None, t\<lparr>stdinChan := Some (Chan (queue ch @ [bytes]) False)\<rparr>))"

subsection \<open>SendRequest\<close>

text \<open>
  \<^verbatim>\<open>json.Marshal\<close> is a parameter. The records of \<^verbatim>\<open>messages\<close> are non-nil maps.
  \<open>SendRequest_message\<close> is the first statement of the loop body: a record without a
  \<^verbatim>\<open>type\<close> key is replaced by a user turn that carries it as content.
\<close>

type_synonym marshal = "jobject \<Rightarrow> error + string"

definition SendRequest_message :: "string \<Rightarrow> jobject \<Rightarrow> jobject" where
  "SendRequest_message sessionID' msg =
     (if map_of msg ''type'' = None
      then [(''message'', JObject [(''content'', JObject msg), (''role'', JString ''user'')]),
            (''parent_tool_use_id'', JNull),
            (''session_id'', JString sessionID'),
            (''type'', JString ''user'')]
      else msg)"

fun SendRequest_loop :: "marshal \<Rightarrow> string \<Rightarrow> call_ctx \<Rightarrow> jobject list \<Rightarrow> transport \<Rightarrow> (error option) outcome \<times> transport" where
  "SendRequest_loop Marshal sessionID' c [] t = (Returned None, t)"
| "SendRequest_loop Marshal sessionID' c (msg # msgs) t =
     (case Marshal (SendRequest_message sessionID' msg) of
        Inl err \<Rightarrow> (Returned (Some (Wrapped ''failed to marshal message: '' err)), t)
      | Inr data \<Rightarrow>
          (case send_stdinChan c (data @ [CHR 0x0A]) t of
             (Returned None, t') \<Rightarrow> SendRequest_loop Marshal sessionID' (after_send c) msgs t'
           | (res, t') \<Rightarrow> (res, t')))"

definition SendRequest :: "marshal \<Rightarrow> call_ctx \<Rightarrow> jobject list \<Rightarrow> jobject option \<Rightarrow> transport \<Rightarrow> (error option) outcome \<times> transport" where
  "SendRequest Marshal c messages metadata t =
     (if \<not> isStreaming t
      then (Returned (Some (NewCLIConnectionError ''SendRequest only works in streaming mode'')), t)
      else if \<not> connected t
      then (Returned (Some (NewCLIConnectionError ''Not connected'')), t)
      else
        let sessionID' = (case as_string (index metadata ''session_id'') of
                           Some sid \<Rightarrow> sid
                         | None \<Rightarrow> ''default'')
        in SendRequest_loop Marshal sessionID' c messages t)"

subsection \<open>sendControlRequest\<close>

text \<open>
  The request identifier: \<^verbatim>\<open>fmt.Sprintf("req_%d_%d", counter, now)\<close> with the new value of
  the 64-bit counter and the clock's \<^verbatim>\<open>UnixNano\<close>.
\<close>

definition newRequestID :: "64 word \<Rightarrow> int \<Rightarrow> string" where
  "newRequestID counter now = ''req_'' @ nat_dec (unat counter) @ ''_'' @ itoa now"

text \<open>The first critical section: the connection check, the identifier, the request.\<close>

definition sendControlRequest_begin :: "int \<Rightarrow> jobject \<Rightarrow> transport \<Rightarrow> error + (string \<times> jobject \<times> transport)" where
  "sendControlRequest_begin now request t =
     (if stdin t = None \<or> \<not> connected t
      then Inl (NewCLIConnectionError ''Not connected or stdin not available'')
      else
        let counter = requestCounter t + 1;
            requestID = newRequestID counter now;
            controlRequest = [(''request'', JObject request),
                              (''request_id'', JString requestID),
                              (''type'', JString ''control_request'')]
        in Inr (requestID, controlRequest, t\<lparr>requestCounter := counter\<rparr>))"

text \<open>
  The polling loop runs over what happens while it waits: a tick of the 100 ms ticker,
  the reader storing a response under an identifier, the caller's context ending.
\<close>

datatype poll_event = Tick | Arrives string jobject | CallCtxDone error

fun sendControlRequest_wait :: "string \<Rightarrow> poll_event list \<Rightarrow> transport \<Rightarrow> (error + jobject) outcome \<times> transport" where
  "sendControlRequest_wait requestID [] t = (Blocked, t)"
| "sendControlRequest_wait requestID (Arrives k r # evs) t =
     sendControlRequest_wait requestID evs
       (t\<lparr>pendingControlResponses := (pendingControlResponses t)(k \<mapsto> r)\<rparr>)"
| "sendControlRequest_wait requestID (CallCtxDone e # evs) t = (Returned (Inl e), t)"
| "sendControlRequest_wait requestID (Tick # evs) t =
     (case pendingControlResponses t requestID of
        None \<Rightarrow> sendControlRequest_wait requestID evs t
      | Some response \<Rightarrow>
          let t = t\<lparr>pendingControlResponses := (pendingControlResponses t)(requestID := None)\<rparr> in
          if as_string (map_of response ''subtype'') = Some ''error''
          then (case as_string (map_of response ''error'') of
                  Some errMsg \<Rightarrow>
                    (Returned (Inl (NewCLIConnectionError (''Control request failed: '' @ errMsg))), t)
                | None \<Rightarrow> (Returned (Inr response), t))
          else (Returned (Inr response), t))"

definition sendControlRequest :: "marshal \<Rightarrow> int \<Rightarrow> call_ctx \<Rightarrow> poll_event list \<Rightarrow> jobject \<Rightarrow> transport \<Rightarrow> (error + jobject) outcome \<times> transport" where
  "sendControlRequest Marshal now c evs request t =
     (case sendControlRequest_begin now request t of
        Inl err \<Rightarrow> (Returned (Inl err), t)
      | Inr (requestID, controlRequest, t) \<Rightarrow>
          (case Marshal controlRequest of
             Inl err \<Rightarrow> (Returned (Inl (Wrapped ''failed to marshal control request: '' err)), t)
           | Inr data \<Rightarrow>
               (case send_stdinChan c (data @ [CHR 0x0A]) t of
                  (Returned None, t) \<Rightarrow> sendControlRequest_wait requestID evs t
                | (Returned (Some err), t) \<Rightarrow> (Returned (Inl err), t)
                | (Panicked, t) \<Rightarrow> (Panicked, t)
                | (Blocked, t) \<Rightarrow> (Blocked, t))))"

text \<open>
  The identifiers that successive control requests of one transport get: each call is
  given by the clock reading and the payload; a call refused by the connection check
  gets none.
\<close>

fun issued_ids :: "(int \<times> jobject) list \<Rightarrow> transport \<Rightarrow> string list" where
  "issued_ids [] t = []"
| "issued_ids (call # calls) t =
     (case sendControlRequest_begin (fst call) (snd call) t of
        Inl err \<Rightarrow> issued_ids calls t
      | Inr (requestID, controlRequest, t') \<Rightarrow> requestID # issued_ids calls t')"

subsection \<open>Disconnect and the closing of the output channel\<close>

text \<open>
  \<^verbatim>\<open>Disconnect\<close>, given whether the child exits within the 5 s of \<^verbatim>\<open>disconnectTimeout\<close> and
  the exit code that \<^verbatim>\<open>Wait\<close> then records. Its statements after the connection check are
  the steps below, in the order of the source. The pumps that \<^verbatim>\<open>taskGroup.Wait\<close> waits
  for are modelled on their own.
\<close>

definition Disconnect_wait :: "bool \<Rightarrow> int \<Rightarrow> transport \<Rightarrow> transport" where
  "Disconnect_wait exits_in_time exit_code t =
     (case cmd t of
        None \<Rightarrow> t
      | Some c \<Rightarrow>
          if \<not> Process c then t
          else if exits_in_time
          then t\<lparr>cmd := Some (c\<lparr>ProcessState := Some exit_code\<rparr>),
                 effects := effects t @ [WaitProcess]\<rparr>
          else t\<lparr>cmd := Some (c\<lparr>ProcessState := Some exit_code\<rparr>),
                 effects := effects t @ [KillProcess, WaitProcess]\<rparr>)"

definition Disconnect_cancel :: "transport \<Rightarrow> transport" where
  "Disconnect_cancel t =
     (if cancel t then t\<lparr>ctx_done := True, effects := effects t @ [CancelCtx]\<rparr> else t)"

text \<open>\<^verbatim>\<open>close(t.stdinChan)\<close> on a non-nil channel; \<open>None\<close> is the panic on a closed one.\<close>

definition Disconnect_close_stdinChan :: "transport \<Rightarrow> transport option" where
  "Disconnect_close_stdinChan t =
     (case stdinChan t of
        None \<Rightarrow> Some t
      | Some ch \<Rightarrow>
          if is_closed ch then None
          else Some (t\<lparr>stdinChan := Some (Chan (queue ch) True),
                       effects := effects t @ [CloseStdinChan]\<rparr>))"

definition Disconnect_close_stdin :: "transport \<Rightarrow> transport" where
  "Disconnect_close_stdin t =
     (if stdin t \<noteq> None
      then t\<lparr>stdin := Some ClosedPipe, effects := effects t @ [CloseStdin]\<rparr>
      else t)"

definition Disconnect_wait_tasks :: "transport \<Rightarrow> transport" where
  "Disconnect_wait_tasks t = t\<lparr>effects := effects t @ [WaitTasks]\<rparr>"

definition Disconnect :: "bool \<Rightarrow> int \<Rightarrow> transport \<Rightarrow> (error option) outcome \<times> transport" where
  "Disconnect exits_in_time exit_code t =
     (if \<not> connected t then (Returned None, t)
      else
        let t = Disconnect_cancel (t\<lparr>connected := False\<rparr>) in
        case Disconnect_close_stdinChan t of
          None \<Rightarrow> (Panicked, t)
        | Some t \<Rightarrow>
            (Returned None,
             Disconnect_wait_tasks
               (Disconnect_wait exits_in_time exit_code (Disconnect_close_stdin t))))"

text \<open>
  The critical section of the goroutine that \<^verbatim>\<open>Connect\<close> starts to close the output
  channel once the process and the pumps are done.
\<close>

definition closeOutChan :: "transport \<Rightarrow> transport" where
  "closeOutChan t =
     (case outChan t of
        None \<Rightarrow> t
      | Some sent_msgs \<Rightarrow> t\<lparr>outChan := None, effects := effects t @ [CloseOutChan]\<rparr>)"

text \<open>
  A sequence of teardown steps on one connection: calls of \<^verbatim>\<open>Disconnect\<close> and runs of the
  closing section, in any order. A panic ends the sequence.
\<close>

datatype teardown_step = CallDisconnect bool int | RunCloseOutChan

fun teardown :: "teardown_step list \<Rightarrow> transport \<Rightarrow> transport" where
  "teardown [] t = t"
| "teardown (CallDisconnect exits_in_time exit_code # steps) t =
     (case Disconnect exits_in_time exit_code t of
        (Returned r, t') \<Rightarrow> teardown steps t'
      | (res, t') \<Rightarrow> t')"
| "teardown (RunCloseOutChan # steps) t = teardown steps (closeOutChan t)"

definition closes_of_outChan :: "transport \<Rightarrow> nat" where
  "closes_of_outChan t = length (filter (\<lambda>e. e = CloseOutChan) (effects t))"

subsection \<open>The string prompt adapter and the constructor\<close>

text \<open>
  \<^verbatim>\<open>stringPromptAdapter.Next\<close> returns the pair of the record and the error, and the
  adapter as the call leaves it.
\<close>

definition Next :: "stringPromptAdapter \<Rightarrow> (jobject option \<times> error option) \<times> stringPromptAdapter" where
  "Next s =
     (if sent s then ((None, Some EOF), s)
      else ((Some [(''message'', JObject [(''content'', JString (prompt_string s)),
                                          (''role'', JString ''user'')]),
                   (''type'', JString ''user'')],
             None),
            s\<lparr>sent := True\<rparr>))"

text \<open>The results of \<open>n\<close> successive calls of \<^verbatim>\<open>Next\<close>.\<close>

fun Next_calls :: "nat \<Rightarrow> stringPromptAdapter \<Rightarrow> (jobject option \<times> error option) list" where
  "Next_calls 0 s = []"
| "Next_calls (Suc n) s = fst (Next s) # Next_calls n (snd (Next s))"

definition NewStringPromptStream :: "string \<Rightarrow> MessageStream" where
  "NewStringPromptStream p = StringPrompt \<lparr>prompt_string = p, sent = False\<rparr>"

fun IsStringPrompt :: "MessageStream \<Rightarrow> bool" where
  "IsStringPrompt (StringPrompt a) = True"
| "IsStringPrompt stream = False"

text \<open>\<^verbatim>\<open>NewSubprocessCLITransport\<close>; the options pointer may be nil (\<open>None\<close>).\<close>

definition NewSubprocessCLITransport :: "MessageStream \<Rightarrow> Options option \<Rightarrow> transport" where
  "NewSubprocessCLITransport p opts =
     (let opts' = (case opts of None \<Rightarrow> NewOptions | Some given \<Rightarrow> given);
          streaming = \<not> IsStringPrompt p
      in \<lparr>prompt = p, options = opts', cliPath = [], closeStdinAfterPrompt = False,
          cmd = None, stdin = None, stdinChan = None, outChan = None,
          pendingControlResponses = Map.empty, requestCounter = 0, connected = False,
          isStreaming = streaming, sessionID = ''default'', ctx_done = False, cancel = False,
          effects = []\<rparr>)"

section \<open>A JSON fragment for concrete runs\<close>

text \<open>
  To run the reader and the sender on concrete lines the parameters are instantiated with
  a decoder and an encoder for a fragment of JSON: objects, strings of printable ASCII
  without escapes, \<^verbatim>\<open>null\<close>, \<^verbatim>\<open>true\<close>, \<^verbatim>\<open>false\<close> and natural numbers, without white space.
  Every other text is rejected by the decoder. The encoder writes the members in the
  order of the list (\<^verbatim>\<open>encoding/json\<close> writes them sorted by key).
\<close>

fun parse_string :: "string \<Rightarrow> (string \<times> string) option" where
  "parse_string [] = None"
| "parse_string (c # cs) =
     (if c = CHR 0x22 then Some ([], cs)
      else if c = CHR 0x5C \<or> (of_char c :: nat) < 32 \<or> (of_char c :: nat) > 126 then None
      else (case parse_string cs of
              None \<Rightarrow> None
            | Some (s, rest) \<Rightarrow> Some (c # s, rest)))"

definition is_digit :: "char \<Rightarrow> bool" where
  "is_digit c = (48 \<le> (of_char c :: nat) \<and> (of_char c :: nat) \<le> 57)"

definition digits_value :: "string \<Rightarrow> nat" where
  "digits_value ds = foldl (\<lambda>acc c. 10 * acc + ((of_char c :: nat) - 48)) 0 ds"

fun parse_value :: "nat \<Rightarrow> string \<Rightarrow> (json \<times> string) option"
  and parse_members :: "nat \<Rightarrow> string \<Rightarrow> (jobject \<times> string) option" where
  "parse_value 0 s = None"
| "parse_value (Suc fuel) [] = None"
| "parse_value (Suc fuel) (c # cs) =
     (if c = CHR 0x22
      then (case parse_string cs of
              None \<Rightarrow> None
            | Some (s, rest) \<Rightarrow> Some (JString s, rest))
      else if c = CHR ''{''
      then (if take 1 cs = ''}'' then Some (JObject [], drop 1 cs)
            else (case parse_members fuel cs of
                    None \<Rightarrow> None
                  | Some (m, rest) \<Rightarrow> Some (JObject m, rest)))
      else if take 4 (c # cs) = ''null'' then Some (JNull, drop 3 cs)
      else if take 4 (c # cs) = ''true'' then Some (JBool True, drop 3 cs)
      else if take 5 (c # cs) = ''false'' then Some (JBool False, drop 4 cs)
      else if is_digit c
      then (let ds = c # takeWhile is_digit cs in
            if c = CHR ''0'' \<and> length ds > 1 then None
            else Some (JNumber (int (digits_value ds)), dropWhile is_digit cs))
      else None)"
| "parse_members 0 s = None"
| "parse_members (Suc fuel) s =
     (if take 1 s \<noteq> [CHR 0x22] then None
      else (case parse_string (drop 1 s) of
              None \<Rightarrow> None
            | Some (k, rest) \<Rightarrow>
                if take 1 rest \<noteq> '':'' then None
                else (case parse_value fuel (drop 1 rest) of
                        None \<Rightarrow> None
                      | Some (v, rest') \<Rightarrow>
                          if take 1 rest' = ''}'' then Some ([(k, v)], drop 1 rest')
                          else if take 1 rest' = '','' then
                            (case parse_members fuel (drop 1 rest') of
                               None \<Rightarrow> None
                             | Some (m, rest'') \<Rightarrow>
                                 Some (if k \<in> set (map fst m) then m else (k, v) # m, rest''))
                          else None)))"

definition decode_fragment :: unmarshal where
  "decode_fragment s =
     (case parse_value (Suc (length s)) s of
        Some (JObject m, []) \<Rightarrow> Inr (Some m)
      | Some (JNull, []) \<Rightarrow> Inr None
      | _ \<Rightarrow> Inl (ErrorString ''invalid JSON''))"

fun encode :: "json \<Rightarrow> string"
  and encode_elements :: "json list \<Rightarrow> string"
  and encode_members :: "jobject \<Rightarrow> string" where
  "encode JNull = ''null''"
| "encode (JBool b) = (if b then ''true'' else ''false'')"
| "encode (JNumber i) = itoa i"
| "encode (JString s) = [CHR 0x22] @ s @ [CHR 0x22]"
| "encode (JArray vs) = ''['' @ encode_elements vs @ '']''"
| "encode (JObject m) = ''{'' @ encode_members m @ ''}''"
| "encode_elements [] = []"
| "encode_elements [v] = encode v"
| "encode_elements (v # v' # vs) = encode v @ '','' @ encode_elements (v' # vs)"
| "encode_members [] = []"
| "encode_members [(k, v)] = [CHR 0x22] @ k @ [CHR 0x22] @ '':'' @ encode v"
| "encode_members ((k, v) # kv # kvs) =
     [CHR 0x22] @ k @ [CHR 0x22] @ '':'' @ encode v @ '','' @ encode_members (kv # kvs)"

definition encode_fragment :: marshal where
  "encode_fragment m = Inr (encode (JObject m))"

section \<open>Transports for concrete runs\<close>

text \<open>
  A connected streaming transport as \<^verbatim>\<open>Connect\<close> leaves it: the child started, its input
  pipe and both channels open, nothing sent yet. \<open>exited\<close> sets the exit code that
  \<^verbatim>\<open>ProcessState\<close> reports.
\<close>

definition example_transport :: transport where
  "example_transport =
     (NewSubprocessCLITransport NilStream None)
       \<lparr>cmd := Some \<lparr>Process = True, ProcessState = None\<rparr>, stdin := Some OpenPipe,
        stdinChan := Some (Chan [] False), outChan := Some [], connected := True, cancel := True\<rparr>"

definition exited :: "int \<Rightarrow> transport \<Rightarrow> transport" where
  "exited code t = t\<lparr>cmd := Some \<lparr>Process = True, ProcessState = Some code\<rparr>\<rparr>"

text \<open>A user turn that has a \<^verbatim>\<open>type\<close> and no \<^verbatim>\<open>session_id\<close>.\<close>

definition user_turn :: jobject where
  "user_turn = [(''message'', JObject [(''content'', JString ''hi''), (''role'', JString ''user'')]),
                (''type'', JString ''user'')]"

section \<open>The stderr pump and the exit code\<close>

lemma safeSend_live:
  "outChan t = Some q \<Longrightarrow> \<not> ctx_done t \<Longrightarrow> safeSend t msg = (True, t\<lparr>outChan := Some (q @ [msg])\<rparr>)"
  by (simp add: safeSend_def)

lemma processStderr_zero:
  "cmd t = Some c \<Longrightarrow> ProcessState c = Some 0 \<Longrightarrow> processStderr ls t = Some t"
  by (simp add: processStderr_def)

lemma readStderr_drain_zero:
  "cmd t = Some c \<Longrightarrow> ProcessState c = Some 0 \<Longrightarrow> readStderr_drain ls evs t = Some t"
  by (induction ls evs t rule: readStderr_drain.induct) (simp_all add: processStderr_zero)

lemma readStderr_loop_zero:
  "cmd t = Some c \<Longrightarrow> ProcessState c = Some 0 \<Longrightarrow> readStderr_loop ls n evs t = Some t"
  by (induction ls n evs t rule: readStderr_loop.induct)
     (simp_all add: processStderr_zero readStderr_drain_zero Let_def)

text \<open>
  Claim C3. When the child has exited with code zero the stderr pump emits nothing on the
  output channel, whatever it reads and in whatever order its events come: it returns the
  transport as it found it, so no \<^verbatim>\<open>ProcessError\<close> is sent however much stderr was captured.
\<close>

theorem readStderr_exit_zero_emits_nothing:
  assumes "cmd t = Some c" and "ProcessState c = Some 0"
  shows "readStderr evs t = Some t"
  using assms by (simp add: readStderr_def readStderr_loop_zero)

theorem readStderr_exit_zero_witness:
  "readStderr [Line ''warning: deprecated flag'', Line ''done'', ReadDone] (exited 0 example_transport)
     = Some (exited 0 example_transport)
   \<and> outChan (exited 0 example_transport) = Some []"
  using readStderr_exit_zero_emits_nothing
     [of "exited 0 example_transport" "\<lparr>Process = True, ProcessState = Some 0\<rparr>"
         "[Line ''warning: deprecated flag'', Line ''done'', ReadDone]"]
  by (simp add: exited_def example_transport_def NewSubprocessCLITransport_def)

lemma readStderr_loop_lines:
  "stderrSize + sum_list (map length ls) \<le> maxStderrSize \<Longrightarrow>
   readStderr_loop acc stderrSize (map Line ls @ evs) t =
   readStderr_loop (acc @ ls) (stderrSize + sum_list (map length ls)) evs t"
  by (induction ls arbitrary: acc stderrSize) (simp_all add: Let_def add.assoc)

lemma readStderr_drain_waiting:
  "ReadDone \<notin> set pre \<Longrightarrow> readStderr_drain held pre t = Some t"
  by (induction held pre t rule: readStderr_drain.induct) simp_all

lemma readStderr_drain_done:
  "ReadDone \<notin> set pre \<Longrightarrow>
   readStderr_drain held (pre @ ReadDone # evs) t =
     (if length held > 0 then processStderr held t else Some t)"
  by (induction held pre t rule: readStderr_drain.induct) simp_all

lemma processStderr_nonzero:
  assumes "cmd t = Some c" and "ProcessState c = Some code" and "code \<noteq> 0"
    and "outChan t = Some q" and "\<not> ctx_done t" and "held \<noteq> []"
  shows "processStderr held t =
           Some (t\<lparr>outChan := Some (q @ [\<lparr>Data = None,
                   Err = Some (NewProcessError (''Command failed with exit code '' @ itoa code)
                                 code (Join_newline held))\<rparr>])\<rparr>)"
  using assms by (simp add: processStderr_def safeSend_live)

text \<open>
  Claim C2, as the code has it. With a non-zero exit code and no captured stderr line the
  pump emits nothing when reading ends: both \<^verbatim>\<open>readStderr\<close> and \<^verbatim>\<open>processStderr\<close> return early
  on an empty list of lines. Here the child exited with code 1 and wrote nothing to stderr.
\<close>

theorem readStderr_empty_nonzero_counterexample:
  "readStderr [ReadDone] (exited 1 example_transport) = Some (exited 1 example_transport)
   \<and> outChan (exited 1 example_transport) = Some []"
  by (simp add: readStderr_def exited_def example_transport_def NewSubprocessCLITransport_def)

text \<open>
  Claim C2, amended. Let the exit code that \<^verbatim>\<open>ProcessState\<close> reports be non-zero, the output
  channel open and the context live, and let the pump have taken the lines \<open>ls\<close> (each
  shorter than the scanner's token limit, together within the 10 MiB bound). Every call of
  \<^verbatim>\<open>processStderr\<close> with a non-empty list sends exactly one \<^verbatim>\<open>ProcessError\<close> that carries the
  exit code and the list joined by newlines. The pump makes that call
  \<^item> at the end of reading, with \<open>ls\<close>, if \<open>ls\<close> is not empty, and sends nothing if it is;
  \<^item> when the 30 s timer fires, with \<open>ls\<close> followed by the timeout marker, also when \<open>ls\<close>
    is empty;
  \<^item> at the end of reading after a line that would exceed the 10 MiB bound, with \<open>ls\<close>
    followed by the truncation marker, whatever came in between.
  It sends nothing when the context is cancelled, and nothing while it still waits.
\<close>

theorem readStderr_nonzero_exit:
  assumes "cmd t = Some c" and "ProcessState c = Some code" and "code \<noteq> 0"
    and "outChan t = Some q" and "\<not> ctx_done t"
    and "list_all (\<lambda>l. length l < MaxScanTokenSize) ls"
    and "sum_list (map length ls) \<le> maxStderrSize"
  shows "(\<forall>held. held \<noteq> [] \<longrightarrow>
            processStderr held t =
              Some (t\<lparr>outChan := Some (q @ [\<lparr>Data = None,
                      Err = Some (NewProcessError (''Command failed with exit code '' @ itoa code)
                                    code (Join_newline held))\<rparr>])\<rparr>)) \<and>
         readStderr (map Line ls @ ReadDone # evs) t =
           (if ls = [] then Some t else processStderr ls t) \<and>
         readStderr (map Line ls @ TimerFired # evs) t =
           processStderr (ls @ [''[stderr collection timed out after 30s]'']) t \<and>
         readStderr (map Line ls @ CtxDone # evs) t = Some t \<and>
         readStderr (map Line ls) t = Some t \<and>
         (length big < MaxScanTokenSize \<and>
          sum_list (map length ls) + length big > maxStderrSize \<and> ReadDone \<notin> set pre \<longrightarrow>
            readStderr (map Line ls @ Line big # pre) t = Some t \<and>
            readStderr (map Line ls @ Line big # pre @ ReadDone # evs) t =
              processStderr
                (ls @ [''[stderr truncated after '' @ itoa (int (sum_list (map length ls))) @ '' bytes]''])
                t)"
proof -
  have step: "readStderr (map Line ls @ rest) t =
                readStderr_loop ls (sum_list (map length ls)) rest t" for rest
    using assms(7) readStderr_loop_lines [of 0 ls "[]" rest t] by (simp add: readStderr_def)
  have waiting: "readStderr (map Line ls) t = Some t"
    using step [of "[]"] by simp
  show ?thesis
    using assms(1-5) waiting
    by (simp add: step processStderr_nonzero readStderr_drain_waiting readStderr_drain_done)
qed


theorem readStderr_nonzero_exit_witness:
  "readStderr [Line ''fatal: boom'', ReadDone] (exited 2 example_transport) =
     Some ((exited 2 example_transport)\<lparr>outChan := Some [\<lparr>Data = None,
        Err = Some (ProcessError
                (''Command failed with exit code 2 (exit code: 2)'' @ [CHR 0x0A] @
                 ''Error output: fatal: boom'') 2 ''fatal: boom'')\<rparr>]\<rparr>) \<and>
   readStderr [ReadDone] (exited 2 example_transport) = Some (exited 2 example_transport) \<and>
   readStderr [TimerFired] (exited 2 example_transport) =
     Some ((exited 2 example_transport)\<lparr>outChan := Some [\<lparr>Data = None,
        Err = Some (ProcessError
                (''Command failed with exit code 2 (exit code: 2)'' @ [CHR 0x0A] @
                 ''Error output: [stderr collection timed out after 30s]'') 2
                ''[stderr collection timed out after 30s]'')\<rparr>]\<rparr>) \<and>
   readStderr [Line ''fatal: boom'', CtxDone] (exited 2 example_transport) =
     Some (exited 2 example_transport) \<and>
   readStderr
     (map Line (replicate 160 (replicate 65535 (CHR ''e''))) @
      Line (replicate 1000 (CHR ''e'')) # [Line ''more'', TimerFired] @ [ReadDone])
     (exited 2 example_transport) =
     Some ((exited 2 example_transport)\<lparr>outChan := Some [\<lparr>Data = None,
        Err = Some (NewProcessError ''Command failed with exit code 2'' 2
                (Join_newline (replicate 160 (replicate 65535 (CHR ''e'')) @
                               [''[stderr truncated after 10485600 bytes]''])))\<rparr>]\<rparr>)"
proof -
  let ?t = "exited 2 example_transport"
  let ?c = "\<lparr>Process = True, ProcessState = Some (2::int)\<rparr>"
  let ?big = "replicate 160 (replicate 65535 (CHR ''e''))"
  have t: "cmd ?t = Some ?c" "ProcessState ?c = Some 2" "(2::int) \<noteq> 0" "outChan ?t = Some []"
    "\<not> ctx_done ?t"
    by (simp_all add: exited_def example_transport_def NewSubprocessCLITransport_def)
  have two: "itoa 2 = ''2''" by (simp add: itoa_def nat_dec.simps digit_char_def)
  have size: "itoa (int 10485600) = ''10485600''"
    by (simp add: itoa_def nat_dec.simps digit_char_def)
  have one: "list_all (\<lambda>l. length l < MaxScanTokenSize) [''fatal: boom'']"
    "sum_list (map length [''fatal: boom'']) \<le> maxStderrSize"
    by (simp_all add: MaxScanTokenSize_def maxStderrSize_def)
  have none: "list_all (\<lambda>l. length l < MaxScanTokenSize) []"
    "sum_list (map length ([] :: string list)) \<le> maxStderrSize"
    by simp_all
  have many: "list_all (\<lambda>l. length l < MaxScanTokenSize) ?big"
    "sum_list (map length ?big) \<le> maxStderrSize"
    by (simp_all add: MaxScanTokenSize_def maxStderrSize_def list_all_iff sum_list_replicate)
  have sum: "sum_list (map length ?big) = 10485600" by (simp add: sum_list_replicate)
  have a: "readStderr [Line ''fatal: boom'', ReadDone] ?t =
     Some (?t\<lparr>outChan := Some [\<lparr>Data = None,
        Err = Some (ProcessError
                (''Command failed with exit code 2 (exit code: 2)'' @ [CHR 0x0A] @
                 ''Error output: fatal: boom'') 2 ''fatal: boom'')\<rparr>]\<rparr>)"
    and d: "readStderr [Line ''fatal: boom'', CtxDone] ?t = Some ?t"
    using readStderr_nonzero_exit [OF t one, of "[]" "[]" "[]"]
    by (simp_all add: two NewProcessError_def)
  have b: "readStderr [ReadDone] ?t = Some ?t"
    and c: "readStderr [TimerFired] ?t =
     Some (?t\<lparr>outChan := Some [\<lparr>Data = None,
        Err = Some (ProcessError
                (''Command failed with exit code 2 (exit code: 2)'' @ [CHR 0x0A] @
                 ''Error output: [stderr collection timed out after 30s]'') 2
                ''[stderr collection timed out after 30s]'')\<rparr>]\<rparr>)"
    using readStderr_nonzero_exit [OF t none, of "[]" "[]" "[]"]
    by (simp_all add: two NewProcessError_def)
  have pre: "length (replicate 1000 (CHR ''e'')) < MaxScanTokenSize \<and>
      sum_list (map length ?big) + length (replicate 1000 (CHR ''e'')) > maxStderrSize \<and>
      ReadDone \<notin> set [Line ''more'', TimerFired]"
    by (simp add: sum_list_replicate MaxScanTokenSize_def maxStderrSize_def)
  have e: "readStderr (map Line ?big @ Line (replicate 1000 (CHR ''e'')) #
              [Line ''more'', TimerFired] @ ReadDone # []) ?t =
      processStderr (?big @ [''[stderr truncated after '' @ itoa (int (sum_list (map length ?big))) @ '' bytes]'']) ?t"
    using readStderr_nonzero_exit [OF t many, where evs = "[]" and big = "replicate 1000 (CHR ''e'')"
        and pre = "[Line ''more'', TimerFired]"] pre
    by blast
  have f: "processStderr (?big @ [''[stderr truncated after 10485600 bytes]'']) ?t =
      Some (?t\<lparr>outChan := Some ([] @ [\<lparr>Data = None,
        Err = Some (NewProcessError (''Command failed with exit code '' @ itoa 2) 2
                (Join_newline (?big @ [''[stderr truncated after 10485600 bytes]''])))\<rparr>])\<rparr>)"
    using readStderr_nonzero_exit [OF t none, of "[]" "[]" "[]"] by blast
  have e': "readStderr (map Line ?big @ Line (replicate 1000 (CHR ''e'')) #
              [Line ''more'', TimerFired] @ [ReadDone]) ?t =
     Some (?t\<lparr>outChan := Some [\<lparr>Data = None,
        Err = Some (NewProcessError ''Command failed with exit code 2'' 2
                (Join_newline (?big @ [''[stderr truncated after 10485600 bytes]''])))\<rparr>]\<rparr>)"
    using e f by (simp only: sum size two append_Nil append_Cons append_assoc)
  show ?thesis using a b c d e' by blast
qed

section \<open>The string prompt adapter and the constructor\<close>

lemma Next_calls_sent: "sent s \<Longrightarrow> Next_calls n s = replicate n (None, Some EOF)"
  by (induction n) (simp_all add: Next_def)

text \<open>
  Claim C9. \<^verbatim>\<open>NewStringPromptStream(p)\<close> is an adapter that has not sent yet; its first
  \<^verbatim>\<open>Next\<close> returns the user record with content \<open>p\<close> and no error, and each of the \<open>n\<close>
  calls after it returns nil with \<^verbatim>\<open>io.EOF\<close>.
\<close>

theorem NewStringPromptStream_Next:
  "NewStringPromptStream p = StringPrompt \<lparr>prompt_string = p, sent = False\<rparr> \<and>
   Next_calls (Suc n) \<lparr>prompt_string = p, sent = False\<rparr> =
     (Some [(''message'', JObject [(''content'', JString p), (''role'', JString ''user'')]),
            (''type'', JString ''user'')],
      None) # replicate n (None, Some EOF)"
  by (simp add: NewStringPromptStream_def Next_def Next_calls_sent)

text \<open>
  Claim C10. \<^verbatim>\<open>NewSubprocessCLITransport\<close> takes the default options for a nil pointer and
  the given ones otherwise; the new transport has session id \<^verbatim>\<open>default\<close>, no pending control
  response, and is streaming exactly when the prompt is not a string prompt adapter.
\<close>

theorem NewSubprocessCLITransport_defaults:
  "options (NewSubprocessCLITransport p None) = NewOptions \<and>
   options (NewSubprocessCLITransport p (Some given)) = given \<and>
   sessionID (NewSubprocessCLITransport p opts) = ''default'' \<and>
   pendingControlResponses (NewSubprocessCLITransport p opts) = Map.empty \<and>
   isStreaming (NewSubprocessCLITransport p opts) = (\<forall>a. p \<noteq> StringPrompt a)"
  by (cases p) (simp_all add: NewSubprocessCLITransport_def)

section \<open>Disconnect\<close>

lemma Disconnect_not_connected:
  "\<not> connected t \<Longrightarrow> Disconnect a b t = (Returned None, t)"
  by (simp add: Disconnect_def)

lemma Disconnect_cancel_keeps:
  "connected (Disconnect_cancel t) = connected t"
  "outChan (Disconnect_cancel t) = outChan t"
  "closes_of_outChan (Disconnect_cancel t) = closes_of_outChan t"
  by (simp_all add: Disconnect_cancel_def closes_of_outChan_def)

lemma Disconnect_close_stdinChan_keeps:
  assumes "Disconnect_close_stdinChan t = Some t'"
  shows "connected t' = connected t" and "outChan t' = outChan t"
    and "closes_of_outChan t' = closes_of_outChan t"
  using assms
  by (auto simp: Disconnect_close_stdinChan_def closes_of_outChan_def
           split: option.splits if_splits)

lemma Disconnect_close_stdin_keeps:
  "connected (Disconnect_close_stdin t) = connected t"
  "outChan (Disconnect_close_stdin t) = outChan t"
  "closes_of_outChan (Disconnect_close_stdin t) = closes_of_outChan t"
  by (simp_all add: Disconnect_close_stdin_def closes_of_outChan_def)

lemma Disconnect_wait_keeps:
  "connected (Disconnect_wait a b t) = connected t"
  "outChan (Disconnect_wait a b t) = outChan t"
  "closes_of_outChan (Disconnect_wait a b t) = closes_of_outChan t"
  by (simp_all add: Disconnect_wait_def closes_of_outChan_def split: option.splits)

lemma Disconnect_wait_tasks_keeps:
  "connected (Disconnect_wait_tasks t) = connected t"
  "outChan (Disconnect_wait_tasks t) = outChan t"
  "closes_of_outChan (Disconnect_wait_tasks t) = closes_of_outChan t"
  by (simp_all add: Disconnect_wait_tasks_def closes_of_outChan_def)

lemmas Disconnect_steps_keep =
  Disconnect_cancel_keeps Disconnect_close_stdin_keeps Disconnect_wait_keeps
  Disconnect_wait_tasks_keeps

lemma Disconnect_returns_disconnected:
  assumes "Disconnect a b t = (Returned r, t')"
  shows "\<not> connected t'"
proof (cases "connected t")
  case False
  then show ?thesis using assms by (simp add: Disconnect_def)
next
  case True
  let ?u = "Disconnect_cancel (t\<lparr>connected := False\<rparr>)"
  show ?thesis
  proof (cases "Disconnect_close_stdinChan ?u")
    case None
    then show ?thesis using assms True by (simp add: Disconnect_def)
  next
    case (Some v)
    have "connected v = connected ?u" using Some by (rule Disconnect_close_stdinChan_keeps)
    then have "\<not> connected v" by (simp add: Disconnect_steps_keep)
    moreover have "t' = Disconnect_wait_tasks (Disconnect_wait a b (Disconnect_close_stdin v))"
      using assms True Some by (simp add: Disconnect_def)
    ultimately show ?thesis by (simp add: Disconnect_steps_keep)
  qed
qed

lemma Disconnect_outChan_closes:
  "outChan (snd (Disconnect a b t)) = outChan t \<and>
   closes_of_outChan (snd (Disconnect a b t)) = closes_of_outChan t"
proof (cases "connected t")
  case False
  then show ?thesis by (simp add: Disconnect_def)
next
  case True
  let ?u = "Disconnect_cancel (t\<lparr>connected := False\<rparr>)"
  have u: "outChan ?u = outChan t" "closes_of_outChan ?u = closes_of_outChan t"
    by (simp_all add: Disconnect_steps_keep) (simp add: closes_of_outChan_def)
  show ?thesis
  proof (cases "Disconnect_close_stdinChan ?u")
    case None
    then show ?thesis using True u by (simp add: Disconnect_def)
  next
    case (Some v)
    have "outChan v = outChan ?u" "closes_of_outChan v = closes_of_outChan ?u"
      using Some by (rule Disconnect_close_stdinChan_keeps)+
    then show ?thesis using True Some u by (simp add: Disconnect_def Disconnect_steps_keep)
  qed
qed

lemma teardown_closed:
  "outChan t = None \<Longrightarrow> closes_of_outChan (teardown steps t) = closes_of_outChan t"
proof (induction steps arbitrary: t)
  case Nil
  then show ?case by simp
next
  case (Cons s steps)
  show ?case
  proof (cases s)
    case (CallDisconnect a b)
    obtain res t' where d: "Disconnect a b t = (res, t')" by (cases "Disconnect a b t")
    have o: "outChan t' = None" and c: "closes_of_outChan t' = closes_of_outChan t"
      using Disconnect_outChan_closes [of a b t] d Cons.prems by simp_all
    show ?thesis
      using CallDisconnect d o c Cons.IH [of t'] by (cases res) simp_all
  next
    case RunCloseOutChan
    then show ?thesis using Cons by (simp add: closeOutChan_def)
  qed
qed

lemma teardown_closes_once:
  "closes_of_outChan (teardown steps t) \<le> closes_of_outChan t + 1"
proof (induction steps arbitrary: t)
  case Nil
  then show ?case by simp
next
  case (Cons s steps)
  show ?case
  proof (cases s)
    case (CallDisconnect a b)
    obtain res t' where d: "Disconnect a b t = (res, t')" by (cases "Disconnect a b t")
    have c: "closes_of_outChan t' = closes_of_outChan t"
      using Disconnect_outChan_closes [of a b t] d by simp
    show ?thesis
      using CallDisconnect d c Cons.IH [of t'] by (cases res) simp_all
  next
    case RunCloseOutChan
    show ?thesis
    proof (cases "outChan t")
      case None
      then show ?thesis using RunCloseOutChan Cons.IH [of t] by (simp add: closeOutChan_def)
    next
      case (Some q)
      have "outChan (closeOutChan t) = None" using Some by (simp add: closeOutChan_def)
      then have "closes_of_outChan (teardown steps (closeOutChan t)) = closes_of_outChan (closeOutChan t)"
        by (rule teardown_closed)
      moreover have "closes_of_outChan (closeOutChan t) = closes_of_outChan t + 1"
        using Some by (simp add: closeOutChan_def closes_of_outChan_def)
      ultimately show ?thesis using RunCloseOutChan by simp
    qed
  qed
qed

text \<open>
  Claim C8. \<^verbatim>\<open>Disconnect\<close> on a transport that is not connected returns nil and leaves the
  transport as it is (no teardown action is taken); a \<^verbatim>\<open>Disconnect\<close> that follows one that
  returned is such a call, whatever the process does; and over any sequence of
  \<^verbatim>\<open>Disconnect\<close> calls and runs of the closing section the output channel is closed at most
  once.
\<close>

theorem Disconnect_idempotent:
  "(\<not> connected t \<longrightarrow> Disconnect a b t = (Returned None, t)) \<and>
   (Disconnect a b t = (Returned r, t') \<longrightarrow> Disconnect a' b' t' = (Returned None, t')) \<and>
   closes_of_outChan (teardown steps t) \<le> closes_of_outChan t + 1"
  using Disconnect_not_connected Disconnect_returns_disconnected teardown_closes_once
  by blast

theorem Disconnect_idempotent_witness:
  "\<not> connected (NewSubprocessCLITransport NilStream None) \<and>
   Disconnect True 0 (NewSubprocessCLITransport NilStream None)
     = (Returned None, NewSubprocessCLITransport NilStream None) \<and>
   Disconnect False 137 example_transport =
     (Returned None,
      example_transport\<lparr>connected := False, ctx_done := True,
        stdinChan := Some (Chan [] True), stdin := Some ClosedPipe,
        cmd := Some \<lparr>Process = True, ProcessState = Some 137\<rparr>,
        effects := [CancelCtx, CloseStdinChan, CloseStdin, KillProcess, WaitProcess, WaitTasks]\<rparr>) \<and>
   Disconnect True 0
     (example_transport\<lparr>connected := False, ctx_done := True,
        stdinChan := Some (Chan [] True), stdin := Some ClosedPipe,
        cmd := Some \<lparr>Process = True, ProcessState = Some 137\<rparr>,
        effects := [CancelCtx, CloseStdinChan, CloseStdin, KillProcess, WaitProcess, WaitTasks]\<rparr>) =
     (Returned None,
      example_transport\<lparr>connected := False, ctx_done := True,
        stdinChan := Some (Chan [] True), stdin := Some ClosedPipe,
        cmd := Some \<lparr>Process = True, ProcessState = Some 137\<rparr>,
        effects := [CancelCtx, CloseStdinChan, CloseStdin, KillProcess, WaitProcess, WaitTasks]\<rparr>) \<and>
   closes_of_outChan
     (teardown [CallDisconnect False 137, RunCloseOutChan, CallDisconnect True 0, RunCloseOutChan]
        example_transport) = 1"
proof -
  let ?t1 = "example_transport\<lparr>connected := False, ctx_done := True,
        stdinChan := Some (Chan [] True), stdin := Some ClosedPipe,
        cmd := Some \<lparr>Process = True, ProcessState = Some 137\<rparr>,
        effects := [CancelCtx, CloseStdinChan, CloseStdin, KillProcess, WaitProcess, WaitTasks]\<rparr>"
  have first: "Disconnect False 137 example_transport = (Returned None, ?t1)"
    by (simp add: Disconnect_def Disconnect_cancel_def Disconnect_close_stdinChan_def
          Disconnect_close_stdin_def Disconnect_wait_def Disconnect_wait_tasks_def
          example_transport_def NewSubprocessCLITransport_def)
  have fresh: "\<not> connected (NewSubprocessCLITransport NilStream None)"
    by (simp add: NewSubprocessCLITransport_def)
  have a: "Disconnect True 0 (NewSubprocessCLITransport NilStream None)
     = (Returned None, NewSubprocessCLITransport NilStream None)"
    using Disconnect_idempotent [of "NewSubprocessCLITransport NilStream None" True 0] fresh by blast
  have b: "Disconnect True 0 ?t1 = (Returned None, ?t1)"
    using Disconnect_idempotent [of example_transport False 137 None ?t1 True 0] first by blast
  have c: "closes_of_outChan
     (teardown [CallDisconnect False 137, RunCloseOutChan, CallDisconnect True 0, RunCloseOutChan]
        example_transport) = 1"
  proof -
    have ex: "outChan example_transport = Some []" "effects example_transport = []"
      by (simp_all add: example_transport_def NewSubprocessCLITransport_def)
    show ?thesis
      by (simp add: first Disconnect_not_connected closeOutChan_def closes_of_outChan_def ex)
  qed
  show ?thesis using fresh a first b c by simp
qed

section \<open>Control requests\<close>

text \<open>
  What a tick does once the response is in the table: the entry is deleted; the call fails
  if the subtype is \<^verbatim>\<open>error\<close> and the response has an \<^verbatim>\<open>error\<close> string, and returns the
  response in every other case.
\<close>

lemma sendControlRequest_wait_tick:
  assumes "pendingControlResponses t requestID = Some response"
  shows "sendControlRequest_wait requestID (Tick # evs) t =
           (if as_string (map_of response ''subtype'') = Some ''error''
            then (case as_string (map_of response ''error'') of
                    Some errMsg \<Rightarrow>
                      Returned (Inl (NewCLIConnectionError (''Control request failed: '' @ errMsg)))
                  | None \<Rightarrow> Returned (Inr response))
            else Returned (Inr response),
            t\<lparr>pendingControlResponses := (pendingControlResponses t)(requestID := None)\<rparr>)"
  using assms by (simp add: Let_def split: option.splits)

text \<open>
  Claim C6 at a response whose subtype is \<^verbatim>\<open>error\<close> and which carries no \<^verbatim>\<open>error\<close> string:
  the request \<^verbatim>\<open>req_1_5\<close> is written, the response arrives, and at the next tick the call
  returns the response with a nil error.
\<close>

theorem sendControlRequest_error_without_message:
  "sendControlRequest encode_fragment 5 Background
     [Arrives ''req_1_5'' [(''request_id'', JString ''req_1_5''), (''subtype'', JString ''error'')], Tick]
     [(''subtype'', JString ''interrupt'')] example_transport =
   (Returned (Inr [(''request_id'', JString ''req_1_5''), (''subtype'', JString ''error'')]),
    example_transport\<lparr>requestCounter := 1,
      stdinChan := Some (Chan [''{\"request\":{\"subtype\":\"interrupt\"},\"request_id\":\"req_1_5\",\"type\":\"control_request\"}'' @ [CHR 0x0A]] False)\<rparr>)"
  by (simp add: sendControlRequest_def sendControlRequest_begin_def newRequestID_def Let_def
        encode_fragment_def example_transport_def NewSubprocessCLITransport_def
        itoa_def nat_dec.simps digit_char_def)


subsection \<open>Request identifiers\<close>

lemma digit_char_inj:
  "a < 10 \<Longrightarrow> b < 10 \<Longrightarrow> digit_char a = digit_char b \<Longrightarrow> a = b"
proof -
  assume "a < 10" "b < 10" "digit_char a = digit_char b"
  moreover have "a \<in> {0,1,2,3,4,5,6,7,8,9}" using \<open>a < 10\<close> by auto
  moreover have "b \<in> {0,1,2,3,4,5,6,7,8,9}" using \<open>b < 10\<close> by auto
  ultimately show ?thesis by (auto simp: digit_char_def)
qed

lemma digit_char_not_underscore: "d < 10 \<Longrightarrow> digit_char d \<noteq> CHR ''_''"
proof -
  assume "d < 10"
  then have "d \<in> {0,1,2,3,4,5,6,7,8,9}" by auto
  then show ?thesis by (auto simp: digit_char_def)
qed

lemma nat_dec_no_underscore: "CHR ''_'' \<notin> set (nat_dec n)"
proof (induction n rule: nat_dec.induct)
  case (1 n)
  show ?case
  proof (cases "n < 10")
    case True
    then show ?thesis using digit_char_not_underscore [of n] by (simp add: nat_dec.simps)
  next
    case False
    then show ?thesis
      using 1 digit_char_not_underscore [of "n mod 10"]
      by (subst nat_dec.simps) simp
  qed
qed

lemma nat_dec_nonempty: "nat_dec n \<noteq> []"
  by (subst nat_dec.simps) simp

lemma nat_dec_inj: "nat_dec a = nat_dec b \<Longrightarrow> a = b"
proof (induction a arbitrary: b rule: nat_dec.induct)
  case (1 a)
  show ?case
  proof (cases "a < 10")
    case True
    show ?thesis
    proof (cases "b < 10")
      case b: True
      then show ?thesis using True 1(2) digit_char_inj by (simp add: nat_dec.simps)
    next
      case b: False
      have "nat_dec b = nat_dec (b div 10) @ [digit_char (b mod 10)]"
        using b by (subst nat_dec.simps) simp
      moreover have "nat_dec a = [digit_char a]" using True by (subst nat_dec.simps) simp
      ultimately show ?thesis using 1(2) nat_dec_nonempty [of "b div 10"] by simp
    qed
  next
    case False
    have ea: "nat_dec a = nat_dec (a div 10) @ [digit_char (a mod 10)]"
      using False by (subst nat_dec.simps) simp
    show ?thesis
    proof (cases "b < 10")
      case b: True
      have "nat_dec b = [digit_char b]" using b by (subst nat_dec.simps) simp
      then show ?thesis using ea 1(2) nat_dec_nonempty [of "a div 10"] by simp
    next
      case b: False
      have eb: "nat_dec b = nat_dec (b div 10) @ [digit_char (b mod 10)]"
        using b by (subst nat_dec.simps) simp
      have "nat_dec (a div 10) = nat_dec (b div 10)" and d: "digit_char (a mod 10) = digit_char (b mod 10)"
        using ea eb 1(2) by simp_all
      then have "a div 10 = b div 10" using 1(1) [OF False] by simp
      moreover have "a mod 10 = b mod 10" using d digit_char_inj [of "a mod 10" "b mod 10"] by simp
      ultimately show ?thesis by (metis div_mult_mod_eq)
    qed
  qed
qed

lemma split_at_first:
  assumes "xs @ c # ys = xs' @ c # ys'" and "c \<notin> set xs" and "c \<notin> set xs'"
  shows "xs = xs'"
  using assms
proof (induction xs arbitrary: xs')
  case Nil
  then show ?case by (cases xs') auto
next
  case (Cons x xs)
  then show ?case by (cases xs') auto
qed

lemma newRequestID_inj:
  assumes "newRequestID c1 n1 = newRequestID c2 n2"
  shows "c1 = c2"
proof -
  have "nat_dec (unat c1) @ CHR ''_'' # itoa n1 = nat_dec (unat c2) @ CHR ''_'' # itoa n2"
    using assms by (simp add: newRequestID_def)
  then have "nat_dec (unat c1) = nat_dec (unat c2)"
    by (rule split_at_first) (rule nat_dec_no_underscore)+
  then have "unat c1 = unat c2" by (rule nat_dec_inj)
  then show ?thesis by (simp add: word_unat_eq_iff)
qed

lemma issued_ids_counter:
  "rid \<in> set (issued_ids calls t) \<Longrightarrow>
   \<exists>k now. 0 < k \<and> k \<le> length calls \<and> rid = newRequestID (requestCounter t + of_nat k) now"
proof (induction calls arbitrary: t)
  case Nil
  then show ?case by simp
next
  case (Cons call calls)
  show ?case
  proof (cases "sendControlRequest_begin (fst call) (snd call) t")
    case (Inl err)
    then have "rid \<in> set (issued_ids calls t)" using Cons.prems by simp
    then obtain k now where "0 < k" "k \<le> length calls"
        "rid = newRequestID (requestCounter t + of_nat k) now"
      using Cons.IH by blast
    then show ?thesis by (intro exI [of _ k] exI [of _ now]) simp
  next
    case (Inr res)
    obtain rid' creq t' where res: "res = (rid', creq, t')" by (cases res)
    have ok: "\<not> (stdin t = None \<or> \<not> connected t)"
      using Inr by (auto simp: sendControlRequest_begin_def split: if_splits)
    have rid': "rid' = newRequestID (requestCounter t + 1) (fst call)"
      and t': "requestCounter t' = requestCounter t + 1"
      using Inr res ok by (auto simp: sendControlRequest_begin_def Let_def)
    have "rid = rid' \<or> rid \<in> set (issued_ids calls t')"
      using Cons.prems Inr res by simp
    then show ?thesis
    proof
      assume "rid = rid'"
      then show ?thesis using rid' by (intro exI [of _ 1] exI [of _ "fst call"]) simp
    next
      assume "rid \<in> set (issued_ids calls t')"
      then obtain k now where k: "0 < k" "k \<le> length calls"
          "rid = newRequestID (requestCounter t' + of_nat k) now"
        using Cons.IH by blast
      moreover have "requestCounter t' + of_nat k = requestCounter t + of_nat (Suc k)"
        using t' by simp
      ultimately show ?thesis
        by (intro exI [of _ "Suc k"] exI [of _ now]) simp
    qed
  qed
qed

text \<open>
  Claim C7. The control requests of one transport get pairwise distinct identifiers,
  whatever the clock reads: each gets the next value of the counter, and the decimal
  rendering of the counter ends at the first underscore after the prefix. The requests are
  fewer than \<open>2 ^ 64\<close>, the number after which the 64-bit counter would wrap. (The pending
  table is a map from identifiers, so it holds at most one entry for each.)
\<close>

theorem issued_ids_distinct:
  "length calls < 2 ^ 64 \<Longrightarrow> distinct (issued_ids calls t)"
proof (induction calls arbitrary: t)
  case Nil
  then show ?case by simp
next
  case (Cons call calls)
  have len: "length calls < 2 ^ 64" using Cons.prems by simp
  show ?case
  proof (cases "sendControlRequest_begin (fst call) (snd call) t")
    case (Inl err)
    then show ?thesis using Cons.IH [OF len] by simp
  next
    case (Inr res)
    obtain rid' creq t' where res: "res = (rid', creq, t')" by (cases res)
    have ok: "\<not> (stdin t = None \<or> \<not> connected t)"
      using Inr by (auto simp: sendControlRequest_begin_def split: if_splits)
    have rid': "rid' = newRequestID (requestCounter t + 1) (fst call)"
      and t': "requestCounter t' = requestCounter t + 1"
      using Inr res ok by (auto simp: sendControlRequest_begin_def Let_def)
    have "rid' \<notin> set (issued_ids calls t')"
    proof
      assume "rid' \<in> set (issued_ids calls t')"
      then obtain k now where k: "0 < k" "k \<le> length calls"
          "rid' = newRequestID (requestCounter t' + of_nat k) now"
        using issued_ids_counter by blast
      then have "requestCounter t + 1 = requestCounter t + 1 + of_nat k"
        using rid' t' newRequestID_inj by metis
      then have "(of_nat k :: 64 word) = 0" by simp
      moreover have "k < 2 ^ LENGTH(64)" using k(2) len by simp
      ultimately show False using k(1) of_nat_neq_0 by blast
    qed
    then show ?thesis using Inr res Cons.IH [OF len, of t'] by simp
  qed
qed

theorem issued_ids_distinct_witness:
  "issued_ids [(5, [(''subtype'', JString ''interrupt'')]), (5, [(''subtype'', JString ''interrupt'')]),
               (6, [])] example_transport = [''req_1_5'', ''req_2_5'', ''req_3_6''] \<and>
   distinct [''req_1_5'', ''req_2_5'', ''req_3_6'']"
proof -
  let ?calls = "[(5, [(''subtype'', JString ''interrupt'')]), (5, [(''subtype'', JString ''interrupt'')]),
               (6, [])] :: (int \<times> jobject) list"
  have ids: "issued_ids ?calls example_transport = [''req_1_5'', ''req_2_5'', ''req_3_6'']"
    by (simp add: sendControlRequest_begin_def newRequestID_def Let_def example_transport_def
          NewSubprocessCLITransport_def itoa_def nat_dec.simps digit_char_def)
  have "distinct (issued_ids ?calls example_transport)"
    by (rule issued_ids_distinct) simp
  then show ?thesis using ids by simp
qed

section \<open>The stdout reader\<close>

subsection \<open>Lines that trimming and splitting leave as they are\<close>

lemma TrimLeft_keeps:
  assumes "\<not> is_space1 a" and "(of_char a :: nat) < 128"
  shows "TrimLeft (a # s) = a # s"
proof -
  have two: "\<not> is_space2 a b" for b using assms(2) by (auto simp: is_space2_def)
  have three: "\<not> is_space3 a b c" for b c using assms(2) by (auto simp: is_space3_def)
  show ?thesis
  proof (cases s)
    case Nil
    then show ?thesis using assms(1) by simp
  next
    case (Cons b s')
    then show ?thesis using assms(1) two three by (cases s') simp_all
  qed
qed

lemma TrimLeftRev_keeps:
  assumes "\<not> is_space1 c" and "(of_char c :: nat) < 128"
  shows "TrimLeftRev (c # s) = c # s"
proof -
  have two: "\<not> is_space2 b c" for b using assms(2) by (auto simp: is_space2_def)
  have three: "\<not> is_space3 a b c" for a b using assms(2) by (auto simp: is_space3_def)
  show ?thesis
  proof (cases s)
    case Nil
    then show ?thesis using assms(1) by simp
  next
    case (Cons b s')
    then show ?thesis using assms(1) two three by (cases s') simp_all
  qed
qed

lemma TrimSpace_keeps:
  assumes "s \<noteq> []"
    and "\<not> is_space1 (hd s)" and "(of_char (hd s) :: nat) < 128"
    and "\<not> is_space1 (last s)" and "(of_char (last s) :: nat) < 128"
  shows "TrimSpace s = s"
proof -
  obtain a s' where s: "s = a # s'" using assms(1) by (cases s) auto
  have l: "TrimLeft s = s" using assms(2,3) s by (simp add: TrimLeft_keeps)
  have r: "rev s = last s # rev (butlast s)"
    using assms(1) by (induction s rule: rev_induct) simp_all
  have "TrimLeftRev (rev s) = rev s"
    by (metis r TrimLeftRev_keeps assms(4,5))
  then show ?thesis using l by (simp add: TrimSpace_def)
qed

lemma TrimSpace_Nil: "TrimSpace [] = []"
  by (simp add: TrimSpace_def)

lemma Split_newline_single: "CHR 0x0A \<notin> set s \<Longrightarrow> Split_newline s = [s]"
  by (induction s) auto

lemma readOutput_line_single:
  "CHR 0x0A \<notin> set l \<Longrightarrow> readOutput_line U st l = readOutput_fragment U st l"
  by (cases "l = []")
     (simp_all add: readOutput_line_def Split_newline_single readOutput_fragment_def TrimSpace_Nil)

lemma readOutput_fragment_overflow:
  assumes "length (buf @ TrimSpace piece) > maxBufferSize" and "length buf \<le> maxBufferSize"
  shows "readOutput_fragment U (buf, t) piece =
           ([], snd (safeSend t \<lparr>Data = None, Err = Some overflow_error\<rparr>))"
proof -
  have "TrimSpace piece \<noteq> []" using assms by auto
  then show ?thesis using assms(1) by (simp add: readOutput_fragment_def Let_def)
qed

lemma readOutput_fragment_unparsed:
  assumes "length (buf @ TrimSpace piece) \<le> maxBufferSize" and "isl (U (buf @ TrimSpace piece))"
  shows "readOutput_fragment U (buf, t) piece = (buf @ TrimSpace piece, t)"
  using assms by (cases "U (buf @ TrimSpace piece)") (simp_all add: readOutput_fragment_def Let_def)

lemma scanner_short:
  assumes "list_all (\<lambda>line. length line < maxBufferSize) ls"
  shows "scanner_Scan ls = ls" and "scanner_Err ls None = None"
  using assms by (simp_all add: scanner_Scan_def scanner_Err_def list_all_iff)

text \<open>A line of \<^verbatim>\<open>maxBufferSize\<close> bytes or more ends the loop with a read error.\<close>

lemma readOutput_token_too_long:
  assumes "list_all (\<lambda>line. length line < maxBufferSize) ls" and "\<not> length l < maxBufferSize"
  shows "readOutput U t (ls @ l # rest) readErr =
           snd (safeSend (snd (readOutput_loop U t ls))
                  \<lparr>Data = None, Err = Some (Wrapped ''error reading output: '' ErrTooLong)\<rparr>)"
proof -
  have "scanner_Scan (ls @ l # rest) = ls"
    using assms by (simp add: scanner_Scan_def list_all_iff takeWhile_append1 takeWhile_append2)
  moreover have "scanner_Err (ls @ l # rest) readErr = Some ErrTooLong"
    using assms(2) by (simp add: scanner_Err_def)
  ultimately show ?thesis by (simp add: readOutput_def ErrTooLong_def)
qed

lemma readOutput_accumulates:
  assumes "CHR 0x0A \<notin> set (concat ls)"
    and "\<forall>k. 0 < k \<and> k \<le> length ls \<longrightarrow> isl (U (buf @ concat (map TrimSpace (take k ls))))"
    and "length (buf @ concat (map TrimSpace ls)) \<le> maxBufferSize"
  shows "foldl (readOutput_line U) (buf, t) ls = (buf @ concat (map TrimSpace ls), t)"
  using assms
proof (induction ls rule: rev_induct)
  case Nil
  then show ?case by simp
next
  case (snoc l ls)
  have nl: "CHR 0x0A \<notin> set (concat ls)" and nl': "CHR 0x0A \<notin> set l"
    using snoc.prems(1) by auto
  have pre: "\<forall>k. 0 < k \<and> k \<le> length ls \<longrightarrow> isl (U (buf @ concat (map TrimSpace (take k ls))))"
    using snoc.prems(2) by (auto simp: take_append)
  have len: "length (buf @ concat (map TrimSpace ls)) \<le> maxBufferSize"
    using snoc.prems(3) by simp
  have ih: "foldl (readOutput_line U) (buf, t) ls = (buf @ concat (map TrimSpace ls), t)"
    using snoc.IH [OF nl pre len] .
  have last: "isl (U (buf @ concat (map TrimSpace (ls @ [l]))))"
    using snoc.prems(2) [rule_format, of "Suc (length ls)"] by simp
  have "readOutput_fragment U (buf @ concat (map TrimSpace ls), t) l =
          ((buf @ concat (map TrimSpace ls)) @ TrimSpace l, t)"
    using snoc.prems(3) last by (intro readOutput_fragment_unparsed) simp_all
  then show ?case using ih nl' by (simp add: readOutput_line_single)
qed

lemma decode_fragment_x: "decode_fragment (CHR ''x'' # s) = Inl (ErrorString ''invalid JSON'')"
  by (simp add: decode_fragment_def is_digit_def)

lemma replicate_x_Cons: "0 < n \<Longrightarrow> replicate n c = c # replicate (n - 1) c"
  by (cases n) simp_all

lemma decode_fragment_garbage:
  "0 < n \<Longrightarrow> decode_fragment (replicate n (CHR ''x'') @ s) = Inl (ErrorString ''invalid JSON'')"
  using replicate_x_Cons [of n "CHR ''x''"] decode_fragment_x by (metis append_Cons)

lemma TrimSpace_garbage: "0 < n \<Longrightarrow> TrimSpace (replicate n (CHR ''x'')) = replicate n (CHR ''x'')"
  by (rule TrimSpace_keeps) (simp_all add: is_space1_def)

subsection \<open>Routing of parsed records\<close>

text \<open>
  Claim C4, as the code has it. The record \<^verbatim>\<open>{"type":"control_response"}\<close> parses, carries
  no response object, and is neither stored nor forwarded: the reader leaves the transport,
  whose output channel is empty, as it found it.
\<close>

theorem readOutput_control_response_counterexample:
  "decode_fragment ''{\"type\":\"control_response\"}'' =
     Inr (Some [(''type'', JString ''control_response'')]) \<and>
   readOutput decode_fragment example_transport [''{\"type\":\"control_response\"}''] None =
     example_transport \<and>
   outChan example_transport = Some []"
  by (simp add: readOutput_def scanner_Scan_def scanner_Err_def readOutput_loop_def
        readOutput_line_def readOutput_fragment_def
        decode_fragment_def TrimSpace_def is_space1_def is_space2_def is_space3_def
        maxBufferSize_def example_transport_def NewSubprocessCLITransport_def)

text \<open>
  Claim C4, amended. When the accumulator with the new piece parses to a record, the
  accumulator is reset, and: a record whose \<^verbatim>\<open>type\<close> is \<^verbatim>\<open>control_response\<close> is never
  forwarded; it is stored in the pending table under its \<^verbatim>\<open>request_id\<close> when it carries a
  response object with a string \<^verbatim>\<open>request_id\<close>, and is dropped otherwise; every record whose
  \<^verbatim>\<open>type\<close> is not \<^verbatim>\<open>control_response\<close> is forwarded on the output channel.
\<close>

theorem readOutput_fragment_routing:
  assumes "TrimSpace piece \<noteq> []"
    and "length (buf @ TrimSpace piece) \<le> maxBufferSize"
    and "Unmarshal (buf @ TrimSpace piece) = Inr data"
    and "outChan t = Some q" and "\<not> ctx_done t"
  shows "fst (readOutput_fragment Unmarshal (buf, t) piece) = [] \<and>
    (index data ''type'' = Some (JString ''control_response'') \<longrightarrow>
       outChan (snd (readOutput_fragment Unmarshal (buf, t) piece)) = Some q \<and>
       (\<forall>response requestID.
          as_object (index data ''response'') = Some response \<and>
          as_string (map_of response ''request_id'') = Some requestID \<longrightarrow>
          snd (readOutput_fragment Unmarshal (buf, t) piece) =
            t\<lparr>pendingControlResponses := (pendingControlResponses t)(requestID \<mapsto> response)\<rparr>) \<and>
       ((as_object (index data ''response'') = None \<or>
         (\<exists>response. as_object (index data ''response'') = Some response \<and>
                     as_string (map_of response ''request_id'') = None)) \<longrightarrow>
          snd (readOutput_fragment Unmarshal (buf, t) piece) = t)) \<and>
    (index data ''type'' \<noteq> Some (JString ''control_response'') \<longrightarrow>
       snd (readOutput_fragment Unmarshal (buf, t) piece) =
         t\<lparr>outChan := Some (q @ [\<lparr>Data = data, Err = None\<rparr>])\<rparr>)"
  using assms
  by (auto simp: readOutput_fragment_def Let_def safeSend_live split: option.splits)

theorem readOutput_fragment_routing_witness:
  "readOutput_fragment decode_fragment ([], example_transport) ''{\"type\":\"result\"}'' =
     ([], example_transport\<lparr>outChan :=
            Some [\<lparr>Data = Some [(''type'', JString ''result'')], Err = None\<rparr>]\<rparr>) \<and>
   readOutput_fragment decode_fragment ([], example_transport)
       ''{\"type\":\"control_response\",\"response\":{\"request_id\":\"req_1_5\",\"subtype\":\"success\"}}'' =
     ([], example_transport\<lparr>pendingControlResponses :=
            [''req_1_5'' \<mapsto> [(''request_id'', JString ''req_1_5''), (''subtype'', JString ''success'')]]\<rparr>)"
proof -
  have ex: "outChan example_transport = Some []" "\<not> ctx_done example_transport"
    "pendingControlResponses example_transport = Map.empty"
    by (simp_all add: example_transport_def NewSubprocessCLITransport_def)
  have t1: "TrimSpace ''{\"type\":\"result\"}'' = ''{\"type\":\"result\"}''"
    by (rule TrimSpace_keeps) (simp_all add: is_space1_def)
  have d1: "decode_fragment ''{\"type\":\"result\"}'' = Inr (Some [(''type'', JString ''result'')])"
    by (simp add: decode_fragment_def)
  have t2: "TrimSpace ''{\"type\":\"control_response\",\"response\":{\"request_id\":\"req_1_5\",\"subtype\":\"success\"}}''
      = ''{\"type\":\"control_response\",\"response\":{\"request_id\":\"req_1_5\",\"subtype\":\"success\"}}''"
    by (rule TrimSpace_keeps) (simp_all add: is_space1_def)
  have d2: "decode_fragment ''{\"type\":\"control_response\",\"response\":{\"request_id\":\"req_1_5\",\"subtype\":\"success\"}}''
      = Inr (Some [(''type'', JString ''control_response''),
                   (''response'', JObject [(''request_id'', JString ''req_1_5''),
                                           (''subtype'', JString ''success'')])])"
    by (simp add: decode_fragment_def)
  have a: "readOutput_fragment decode_fragment ([], example_transport) ''{\"type\":\"result\"}'' =
     ([], example_transport\<lparr>outChan :=
            Some [\<lparr>Data = Some [(''type'', JString ''result'')], Err = None\<rparr>]\<rparr>)"
    using readOutput_fragment_routing
      [of "''{\"type\":\"result\"}''" "[]" decode_fragment "Some [(''type'', JString ''result'')]"
          example_transport "[]"]
    by (simp add: t1 d1 ex maxBufferSize_def prod_eq_iff)
  have b: "readOutput_fragment decode_fragment ([], example_transport)
       ''{\"type\":\"control_response\",\"response\":{\"request_id\":\"req_1_5\",\"subtype\":\"success\"}}'' =
     ([], example_transport\<lparr>pendingControlResponses :=
            [''req_1_5'' \<mapsto> [(''request_id'', JString ''req_1_5''), (''subtype'', JString ''success'')]]\<rparr>)"
    using readOutput_fragment_routing
      [of "''{\"type\":\"control_response\",\"response\":{\"request_id\":\"req_1_5\",\"subtype\":\"success\"}}''"
          "[]" decode_fragment
          "Some [(''type'', JString ''control_response''),
                   (''response'', JObject [(''request_id'', JString ''req_1_5''),
                                           (''subtype'', JString ''success'')])]"
          example_transport "[]"]
    by (simp add: t2 d2 ex maxBufferSize_def prod_eq_iff)
  show ?thesis using a b by simp
qed

subsection \<open>Overflow of the accumulator\<close>

text \<open>
  Claim C1, as the code has it. Three lines of 1200001 bytes in all that never parse (each
  short enough for the scanner) are followed by the record \<^verbatim>\<open>{"type":"result"}\<close>. The second line overflows the accumulator,
  which is reset; the third line then stays in it, so the record is appended to \<^verbatim>\<open>x\<close> and
  does not parse: one overflow error is sent and no domain record.
\<close>

theorem readOutput_overflow_counterexample:
  "length (concat [replicate 600000 (CHR ''x''), replicate 600000 (CHR ''x''), ''x'']) > maxBufferSize \<and>
   decode_fragment ''{\"type\":\"result\"}'' = Inr (Some [(''type'', JString ''result'')]) \<and>
   readOutput decode_fragment example_transport
     [replicate 600000 (CHR ''x''), replicate 600000 (CHR ''x''), ''x'', ''{\"type\":\"result\"}'']
     None =
   example_transport\<lparr>outChan := Some [\<lparr>Data = None, Err = Some overflow_error\<rparr>]\<rparr>"
proof -
  let ?X = "replicate 600000 (CHR ''x'')"
  let ?r = "''{\"type\":\"result\"}''"
  let ?t1 = "example_transport\<lparr>outChan := Some [\<lparr>Data = None, Err = Some overflow_error\<rparr>]\<rparr>"
  have ex: "outChan example_transport = Some []" "\<not> ctx_done example_transport"
    by (simp_all add: example_transport_def NewSubprocessCLITransport_def)
  have tx: "TrimSpace ?X = ?X" by (rule TrimSpace_garbage) simp
  have tr: "TrimSpace ?r = ?r" by (rule TrimSpace_keeps) (simp_all add: is_space1_def)
  have t1x: "TrimSpace ''x'' = ''x''" by (rule TrimSpace_keeps) (simp_all add: is_space1_def)
  have dr: "decode_fragment ?r = Inr (Some [(''type'', JString ''result'')])"
    by (simp add: decode_fragment_def)
  have s1: "readOutput_line decode_fragment ([], example_transport) ?X = (?X, example_transport)"
    using readOutput_fragment_unparsed [of "[]" ?X decode_fragment example_transport]
      decode_fragment_garbage [of 600000 "[]"]
    by (simp add: readOutput_line_single tx maxBufferSize_def)
  have s2: "readOutput_line decode_fragment (?X, example_transport) ?X = ([], ?t1)"
    using readOutput_fragment_overflow [of ?X ?X decode_fragment example_transport]
    by (simp add: readOutput_line_single tx maxBufferSize_def safeSend_live ex)
  have s3: "readOutput_line decode_fragment ([], ?t1) ''x'' = (''x'', ?t1)"
    using readOutput_fragment_unparsed [of "[]" "''x''" decode_fragment ?t1]
    by (simp add: readOutput_line_single t1x maxBufferSize_def decode_fragment_x)
  have s4: "readOutput_line decode_fragment (''x'', ?t1) ?r = (''x'' @ ?r, ?t1)"
    using readOutput_fragment_unparsed [of "''x''" ?r decode_fragment ?t1]
    by (simp add: readOutput_line_single tr maxBufferSize_def decode_fragment_x)
  have short: "list_all (\<lambda>line. length line < maxBufferSize) [?X, ?X, ''x'', ?r]"
    by (simp add: maxBufferSize_def)
  have run: "readOutput decode_fragment example_transport [?X, ?X, ''x'', ?r] None = ?t1"
    by (simp add: readOutput_def scanner_short [OF short] readOutput_loop_def s1 s2 s3 s4)
  have len: "length (concat [?X, ?X, ''x'']) > maxBufferSize"
    by (simp add: maxBufferSize_def)
  show ?thesis using len dr run by simp
qed

text \<open>
  Claim C1, amended. Whenever a piece makes the accumulator longer than 1 MiB, the
  accumulator is reset and exactly one overflow error is sent; the loop goes on. Let every
  line be shorter than \<^verbatim>\<open>maxBufferSize\<close>, as the scanner requires. If lines \<open>gs\<close> that never
  parse stay within the bound, the next line \<open>g\<close> exceeds it, and the line after that parses
  on its own to a record that is not a control response, then the reader sends exactly the
  overflow error followed by that record.
\<close>

theorem readOutput_overflow_recovery:
  assumes "outChan t = Some q" and "\<not> ctx_done t"
    and "list_all (\<lambda>line. length line < maxBufferSize) (gs @ [g, r])"
    and "CHR 0x0A \<notin> set (concat (gs @ [g, r]))"
    and "\<forall>k. 0 < k \<and> k \<le> length gs \<longrightarrow> isl (U (concat (map TrimSpace (take k gs))))"
    and "length (concat (map TrimSpace gs)) \<le> maxBufferSize"
    and "length (concat (map TrimSpace gs) @ TrimSpace g) > maxBufferSize"
    and "TrimSpace r \<noteq> []" and "length (TrimSpace r) \<le> maxBufferSize"
    and "U (TrimSpace r) = Inr data"
    and "index data ''type'' \<noteq> Some (JString ''control_response'')"
  shows "(\<forall>buf piece. TrimSpace piece \<noteq> [] \<and> length (buf @ TrimSpace piece) > maxBufferSize \<longrightarrow>
            readOutput_fragment U (buf, t) piece =
              ([], t\<lparr>outChan := Some (q @ [\<lparr>Data = None, Err = Some overflow_error\<rparr>])\<rparr>)) \<and>
         readOutput U t (gs @ [g, r]) None =
           t\<lparr>outChan := Some (q @ [\<lparr>Data = None, Err = Some overflow_error\<rparr>,
                                    \<lparr>Data = data, Err = None\<rparr>])\<rparr>"
proof
  show "\<forall>buf piece. TrimSpace piece \<noteq> [] \<and> length (buf @ TrimSpace piece) > maxBufferSize \<longrightarrow>
            readOutput_fragment U (buf, t) piece =
              ([], t\<lparr>outChan := Some (q @ [\<lparr>Data = None, Err = Some overflow_error\<rparr>])\<rparr>)"
    using assms(1,2) by (simp add: readOutput_fragment_def Let_def safeSend_live)
next
  let ?B = "concat (map TrimSpace gs)"
  let ?t1 = "t\<lparr>outChan := Some (q @ [\<lparr>Data = None, Err = Some overflow_error\<rparr>])\<rparr>"
  have nl: "CHR 0x0A \<notin> set (concat gs)" "CHR 0x0A \<notin> set g" "CHR 0x0A \<notin> set r"
    using assms(4) by auto
  have acc: "foldl (readOutput_line U) ([], t) gs = (?B, t)"
    using readOutput_accumulates [of gs U "[]" t] nl(1) assms(5,6) by simp
  have over: "readOutput_line U (?B, t) g = ([], ?t1)"
    using nl(2) assms(1,2,6,7)
    by (simp add: readOutput_line_single readOutput_fragment_overflow safeSend_live)
  have t1: "outChan ?t1 = Some (q @ [\<lparr>Data = None, Err = Some overflow_error\<rparr>])" "\<not> ctx_done ?t1"
    using assms(2) by simp_all
  have good: "readOutput_line U ([], ?t1) r =
      ([], ?t1\<lparr>outChan := Some ((q @ [\<lparr>Data = None, Err = Some overflow_error\<rparr>]) @ [\<lparr>Data = data, Err = None\<rparr>])\<rparr>)"
    using nl(3) assms(8,9,10,11) t1
    by (simp add: readOutput_line_single readOutput_fragment_def Let_def safeSend_live)
  show "readOutput U t (gs @ [g, r]) None =
           t\<lparr>outChan := Some (q @ [\<lparr>Data = None, Err = Some overflow_error\<rparr>,
                                    \<lparr>Data = data, Err = None\<rparr>])\<rparr>"
    by (simp add: readOutput_def scanner_short [OF assms(3)] readOutput_loop_def acc over good)
qed

theorem readOutput_overflow_recovery_witness:
  "readOutput decode_fragment example_transport
     [replicate 600000 (CHR ''x''), replicate 600000 (CHR ''x''), ''{\"type\":\"result\"}''] None =
   example_transport\<lparr>outChan :=
     Some [\<lparr>Data = None, Err = Some overflow_error\<rparr>,
           \<lparr>Data = Some [(''type'', JString ''result'')], Err = None\<rparr>]\<rparr>"
proof -
  let ?X = "replicate 600000 (CHR ''x'')"
  let ?r = "''{\"type\":\"result\"}''"
  have ex: "outChan example_transport = Some []" "\<not> ctx_done example_transport"
    by (simp_all add: example_transport_def NewSubprocessCLITransport_def)
  have tx: "TrimSpace ?X = ?X" by (rule TrimSpace_garbage) simp
  have tr: "TrimSpace ?r = ?r" by (rule TrimSpace_keeps) (simp_all add: is_space1_def)
  have dr: "decode_fragment ?r = Inr (Some [(''type'', JString ''result'')])"
    by (simp add: decode_fragment_def)
  have h2: "list_all (\<lambda>line. length line < maxBufferSize) ([?X] @ [?X, ?r])"
    by (simp add: maxBufferSize_def)
  have h3: "CHR 0x0A \<notin> set (concat ([?X] @ [?X, ?r]))" by simp
  have h4: "\<forall>k. 0 < k \<and> k \<le> length [?X] \<longrightarrow>
              isl (decode_fragment (concat (map TrimSpace (take k [?X]))))"
  proof (intro allI impI)
    fix k :: nat assume "0 < k \<and> k \<le> length [?X]"
    then have "k = 1" by simp
    then show "isl (decode_fragment (concat (map TrimSpace (take k [?X]))))"
      using decode_fragment_garbage [of 600000 "[]"] by (simp add: tx)
  qed
  have h5: "length (concat (map TrimSpace [?X])) \<le> maxBufferSize"
    by (simp add: tx maxBufferSize_def)
  have h6: "length (concat (map TrimSpace [?X]) @ TrimSpace ?X) > maxBufferSize"
    by (simp add: tx maxBufferSize_def)
  have h7: "TrimSpace ?r \<noteq> []" "length (TrimSpace ?r) \<le> maxBufferSize"
    by (simp_all add: tr maxBufferSize_def)
  have h9: "decode_fragment (TrimSpace ?r) = Inr (Some [(''type'', JString ''result'')])"
    by (simp only: tr dr)
  have h10: "index (Some [(''type'', JString ''result'')]) ''type'' \<noteq> Some (JString ''control_response'')"
    by simp
  show ?thesis
    using readOutput_overflow_recovery [OF ex h2 h3 h4 h5 h6 h7 h9 h10] by simp
qed

section \<open>SendRequest\<close>

lemma SendRequest_loop_enqueues:
  assumes "stdinChan t = Some (Chan q False)"
    and "list_all (\<lambda>m. \<not> isl (Marshal (SendRequest_message sid m))) messages"
  shows "SendRequest_loop Marshal sid Background messages t =
           (Returned None,
            t\<lparr>stdinChan := Some (Chan (q @ map (\<lambda>m. projr (Marshal (SendRequest_message sid m)) @ [CHR 0x0A])
                                               messages) False)\<rparr>)"
  using assms
proof (induction messages arbitrary: t q)
  case Nil
  then show ?case by simp
next
  case (Cons m messages)
  obtain data where d: "Marshal (SendRequest_message sid m) = Inr data"
    using Cons.prems(2) by (cases "Marshal (SendRequest_message sid m)") simp_all
  let ?t' = "t\<lparr>stdinChan := Some (Chan (q @ [data @ [CHR 0x0A]]) False)\<rparr>"
  have send: "send_stdinChan Background (data @ [CHR 0x0A]) t = (Returned None, ?t')"
    using Cons.prems(1) by simp
  have rest: "SendRequest_loop Marshal sid Background messages ?t' =
      (Returned None,
       ?t'\<lparr>stdinChan := Some (Chan ((q @ [data @ [CHR 0x0A]]) @
              map (\<lambda>m. projr (Marshal (SendRequest_message sid m)) @ [CHR 0x0A]) messages) False)\<rparr>)"
    using Cons.prems(2) by (intro Cons.IH) simp_all
  show ?case using d send rest by simp
qed

text \<open>
  Claim C5, as the code has it. A user turn that has a \<^verbatim>\<open>type\<close> and no \<^verbatim>\<open>session_id\<close> is
  sent with the metadata \<^verbatim>\<open>{"session_id":"s1"}\<close>: the bytes put on the queue are the record as
  submitted, without a session id.
\<close>

theorem SendRequest_no_stamp_counterexample:
  "map_of user_turn ''session_id'' = None \<and>
   SendRequest encode_fragment Background [user_turn] (Some [(''session_id'', JString ''s1'')])
     example_transport =
   (Returned None,
    example_transport\<lparr>stdinChan :=
      Some (Chan [''{\"message\":{\"content\":\"hi\",\"role\":\"user\"},\"type\":\"user\"}'' @ [CHR 0x0A]]
              False)\<rparr>)"
  by (simp add: user_turn_def SendRequest_def SendRequest_message_def encode_fragment_def
        example_transport_def NewSubprocessCLITransport_def)

text \<open>
  Claim C5, amended. In streaming mode, while connected and with the caller's context
  live, \<^verbatim>\<open>SendRequest\<close> puts one line per submitted record on the queue, in the order of
  submission. A record that has a \<^verbatim>\<open>type\<close> key is sent as it is (no session id is added);
  a record without one is sent as the content of a new user turn, which carries the
  session id of the metadata (\<^verbatim>\<open>default\<close> if the metadata has no string \<^verbatim>\<open>session_id\<close>).
\<close>

theorem SendRequest_enqueues:
  assumes "isStreaming t" and "connected t" and "stdinChan t = Some (Chan q False)"
    and "sid = (case as_string (index metadata ''session_id'') of Some s \<Rightarrow> s | None \<Rightarrow> ''default'')"
    and "list_all (\<lambda>m. \<not> isl (Marshal (SendRequest_message sid m))) messages"
  shows "SendRequest Marshal Background messages metadata t =
           (Returned None,
            t\<lparr>stdinChan := Some (Chan (q @ map (\<lambda>m. projr (Marshal (SendRequest_message sid m)) @ [CHR 0x0A])
                                               messages) False)\<rparr>) \<and>
         (\<forall>m. map_of m ''type'' \<noteq> None \<longrightarrow> SendRequest_message sid m = m) \<and>
         (\<forall>m. map_of m ''type'' = None \<longrightarrow>
            SendRequest_message sid m =
              [(''message'', JObject [(''content'', JObject m), (''role'', JString ''user'')]),
               (''parent_tool_use_id'', JNull),
               (''session_id'', JString sid),
               (''type'', JString ''user'')])"
  using assms SendRequest_loop_enqueues [of t q Marshal sid messages]
  by (simp add: SendRequest_def SendRequest_message_def)

theorem SendRequest_enqueues_witness:
  "SendRequest encode_fragment Background [user_turn, [(''text'', JString ''yo'')]]
     (Some [(''session_id'', JString ''s1'')]) example_transport =
   (Returned None,
    example_transport\<lparr>stdinChan :=
      Some (Chan [''{\"message\":{\"content\":\"hi\",\"role\":\"user\"},\"type\":\"user\"}'' @ [CHR 0x0A],
                  ''{\"message\":{\"content\":{\"text\":\"yo\"},\"role\":\"user\"},\"parent_tool_use_id\":null,\"session_id\":\"s1\",\"type\":\"user\"}'' @ [CHR 0x0A]]
              False)\<rparr>)"
proof -
  have ex: "isStreaming example_transport" "connected example_transport"
    "stdinChan example_transport = Some (Chan [] False)"
    by (simp_all add: example_transport_def NewSubprocessCLITransport_def)
  have sid: "''s1'' = (case as_string (index (Some [(''session_id'', JString ''s1'')]) ''session_id'') of
                        Some s \<Rightarrow> s | None \<Rightarrow> ''default'')"
    by simp
  have ok: "list_all (\<lambda>m. \<not> isl (encode_fragment (SendRequest_message ''s1'' m)))
              [user_turn, [(''text'', JString ''yo'')]]"
    by (simp add: encode_fragment_def)
  have run: "SendRequest encode_fragment Background [user_turn, [(''text'', JString ''yo'')]]
      (Some [(''session_id'', JString ''s1'')]) example_transport =
    (Returned None,
     example_transport\<lparr>stdinChan := Some (Chan ([] @
        map (\<lambda>m. projr (encode_fragment (SendRequest_message ''s1'' m)) @ [CHR 0x0A])
          [user_turn, [(''text'', JString ''yo'')]]) False)\<rparr>)"
    using SendRequest_enqueues [OF ex sid ok] by (rule conjunct1)
  show ?thesis
    unfolding run by (simp add: SendRequest_message_def user_turn_def encode_fragment_def)
qed

end
